theory Spec2Isabelle
  imports Complex_Main "HOL-Library.Log_Nat"
begin

section \<open>Risk analyzer for Compound V2 wallets: data model\<close>

text \<open>
  The embedding follows \<^verbatim>\<open>risk_analyzer.py\<close>. Python floats appear twice. The
  functions of the pipeline are first written over exact rationals (\<^typ>\<open>rat\<close>): this is
  the arithmetic the source writes down, and it carries the facts that do not depend on
  rounding. The scorer is then written a second time over IEEE 754 doubles
  (\<open>round_double\<close> and the operations built on it), for the facts that rounding decides.
  A naive \<^verbatim>\<open>datetime\<close> is an \<^typ>\<open>int\<close> number of microseconds on one common time axis
  (no time-zone or DST shift). The fields of a raw transfer record that the source passes
  through \<^verbatim>\<open>int(...)\<close> are taken as the natural numbers the ledger stores (a token amount
  and a block time are unsigned).
\<close>

datatype event_kind = Mint | Redeem

record token_info =
  symbol :: string
  underlying_decimals :: nat
  price_usd :: rat

record tx =
  tx_contractAddress :: string
  tx_to :: string
  tx_value :: nat
  tx_timeStamp :: nat

record event =
  timestamp :: int
  event_type :: event_kind
  asset_symbol :: string
  value_usd :: rat

record features =
  liquidation_count :: int
  total_supplied_usd :: rat
  total_borrowed_usd :: rat
  total_liquidated_usd :: int
  distinct_assets_borrowed :: nat
  wallet_age_days :: int

text \<open>
  The outcome of the \<^verbatim>\<open>try\<close> block of \<^verbatim>\<open>fetch_real_transactions\<close>: either a
  \<^verbatim>\<open>RequestException\<close> (transport error, HTTP error status) or the decoded JSON body
  with its \<^verbatim>\<open>status\<close> and \<^verbatim>\<open>result\<close> entries.
\<close>

datatype http_result = RequestException | Json string "tx list"

text \<open>What the program does besides returning: lines on standard output and HTTP requests.\<close>

datatype message =
    Fetching string
  | ApiRequestFailed string
  | Processed nat string
  | NoRelevant string
  | ApiKeyNotFound

datatype effect = Print message | Get string string

section \<open>Asset registry\<close>

definition get_compound_v2_ctokens :: "(string \<times> token_info) list" where
  "get_compound_v2_ctokens =
    [(''0x4ddc2d193948926d02f9b1fe9e1daa0718270ed5'',
        \<lparr>symbol = ''cETH'', underlying_decimals = 18, price_usd = 3500\<rparr>),
     (''0x39aa39c021dfbae8fac545936693ac917d5e7563'',
        \<lparr>symbol = ''cUSDC'', underlying_decimals = 6, price_usd = 1\<rparr>),
     (''0x5d3a536e4d6dbd6114cc1ead35777bab948e3643'',
        \<lparr>symbol = ''cDAI'', underlying_decimals = 18, price_usd = 1\<rparr>),
     (''0xf650c3d88d12db855b8bf7d11be6c55a4e07dcc9'',
        \<lparr>symbol = ''cUSDT'', underlying_decimals = 6, price_usd = 1\<rparr>),
     (''0xc11b1268c1a384e55c48c2391d8d480264a3a7f4'',
        \<lparr>symbol = ''cWBTC'', underlying_decimals = 8, price_usd = 65000\<rparr>),
     (''0x6c8c6b02e7b2be14d4fa6022dfd6d75921d90e4e'',
        \<lparr>symbol = ''cBAT'', underlying_decimals = 18, price_usd = 1 / 4\<rparr>)]"

section \<open>Event fetcher\<close>

text \<open>\<^verbatim>\<open>str.lower\<close> on the ASCII range, which is where ledger addresses live.\<close>

definition lower_char :: "char \<Rightarrow> char" where
  "lower_char c =
     (case map_of (zip ''ABCDEFGHIJKLMNOPQRSTUVWXYZ'' ''abcdefghijklmnopqrstuvwxyz'') c of
        Some l \<Rightarrow> l
      | None \<Rightarrow> c)"

definition lower :: "string \<Rightarrow> string" where
  "lower s = map lower_char s"

definition fromtimestamp :: "nat \<Rightarrow> int" where
  "fromtimestamp s = int s * 1000000"

text \<open>
  The loop over \<^verbatim>\<open>data['result']\<close>: a record whose lower-cased contract address is a
  key of the registry appends one event, any other record is skipped.
\<close>

fun transactions_loop :: "string \<Rightarrow> tx list \<Rightarrow> event list" where
  "transactions_loop wallet_address [] = []"
| "transactions_loop wallet_address (t # ts) =
     (let contract_address = lower (tx_contractAddress t) in
      if contract_address \<in> set (map fst get_compound_v2_ctokens) then
        (case map_of get_compound_v2_ctokens contract_address of
           None \<Rightarrow> transactions_loop wallet_address ts
         | Some info \<Rightarrow>
            (let value_raw = tx_value t;
                 value_adjusted = (of_nat value_raw :: rat) / 10 ^ underlying_decimals info;
                 kind = (if lower (tx_to t) = lower wallet_address then Mint else Redeem)
             in \<lparr>timestamp = fromtimestamp (tx_timeStamp t),
                  event_type = kind,
                  asset_symbol = symbol info,
                  value_usd = value_adjusted * price_usd info\<rparr>
                # transactions_loop wallet_address ts))
      else transactions_loop wallet_address ts)"

definition fetch_real_transactions ::
  "(string \<Rightarrow> string \<Rightarrow> http_result) \<Rightarrow> string \<Rightarrow> string \<Rightarrow> effect list \<times> event list" where
  "fetch_real_transactions requests_get wallet_address api_key =
     (case requests_get wallet_address api_key of
        RequestException \<Rightarrow>
          ([Print (Fetching wallet_address), Get wallet_address api_key,
            Print (ApiRequestFailed wallet_address)], [])
      | Json status result \<Rightarrow>
          ([Print (Fetching wallet_address), Get wallet_address api_key],
           if status \<noteq> ''1'' then []
           else transactions_loop wallet_address result))"

definition fetch_wallet_data_wrapper ::
  "(string \<Rightarrow> string \<Rightarrow> http_result) \<Rightarrow> string \<times> string \<Rightarrow> effect list \<times> string \<times> event list" where
  "fetch_wallet_data_wrapper requests_get args =
     (case args of (address, api_key) \<Rightarrow>
        (case fetch_real_transactions requests_get address api_key of
           (effects, df) \<Rightarrow> (effects, address, df)))"

section \<open>Feature extractor\<close>

text \<open>
  \<^verbatim>\<open>calculate_features\<close>; \<open>now\<close> is the reading of \<^verbatim>\<open>datetime.now()\<close> taken by this
  call, and \<^verbatim>\<open>timedelta.days\<close> is the floor of the difference in days.
\<close>

definition days :: "int \<Rightarrow> int" where
  "days delta = delta div 86400000000"

definition calculate_features :: "int \<Rightarrow> event list \<Rightarrow> features" where
  "calculate_features now df =
     (if df = [] then
        \<lparr>liquidation_count = 0, total_supplied_usd = 0, total_borrowed_usd = 0,
         total_liquidated_usd = 0, distinct_assets_borrowed = 0, wallet_age_days = 0\<rparr>
      else
        (let total_supplied = sum_list (map value_usd (filter (\<lambda>e. event_type e = Mint) df));
             total_borrowed = total_supplied * (4 / 10);
             age = days (now - Min (set (map timestamp df)))
         in \<lparr>liquidation_count = 0,
              total_supplied_usd = total_supplied,
              total_borrowed_usd = total_borrowed,
              total_liquidated_usd = 0,
              distinct_assets_borrowed = length (remdups (map asset_symbol df)),
              wallet_age_days = age\<rparr>))"

section \<open>Batch retriever and feature table\<close>

text \<open>
  Lines 141 to 151 of \<^verbatim>\<open>generate_risk_scores\<close>: one fetch per wallet, the results
  collected into the dictionary \<^verbatim>\<open>all_transactions\<close> (a later entry for the same
  key replaces an earlier one) and one progress line per result. The worker pool hands the
  results back in input order; the trace lists the effects in that order too.
\<close>

definition fetch_results ::
  "(string \<Rightarrow> string \<Rightarrow> http_result) \<Rightarrow> string list \<Rightarrow> string
     \<Rightarrow> (effect list \<times> string \<times> event list) list" where
  "fetch_results requests_get wallet_addresses api_key =
     map (\<lambda>address. fetch_wallet_data_wrapper requests_get (address, api_key)) wallet_addresses"

definition all_transactions ::
  "(effect list \<times> string \<times> event list) list \<Rightarrow> (string \<rightharpoonup> event list)" where
  "all_transactions results =
     fold (\<lambda>r m. case r of (effects, address, transactions_df) \<Rightarrow> m(address \<mapsto> transactions_df))
       results Map.empty"

definition fetch_trace :: "(effect list \<times> string \<times> event list) list \<Rightarrow> effect list" where
  "fetch_trace results =
     concat (map (\<lambda>r. case r of (effects, address, transactions_df) \<Rightarrow>
        effects @ [Print (if transactions_df \<noteq> [] then Processed (length transactions_df) address
                          else NoRelevant address)]) results)"

text \<open>
  Lines 153 to 159: one row per entry of the wallet list; \<open>now i\<close> is what the clock shows
  while row \<open>i\<close> is computed. A row is the wallet identifier with its features.
\<close>

definition features_list ::
  "(nat \<Rightarrow> int) \<Rightarrow> (string \<rightharpoonup> event list) \<Rightarrow> string list \<Rightarrow> (string \<times> features) list" where
  "features_list now transactions wallet_addresses =
     map (\<lambda>i. let address = wallet_addresses ! i;
                  transactions_df = (case transactions address of None \<Rightarrow> [] | Some df \<Rightarrow> df)
              in (address, calculate_features (now i) transactions_df))
       [0 ..< length wallet_addresses]"

section \<open>Scorer\<close>

text \<open>
  This section reads the arithmetic of lines 163 to 182 exactly, over rationals. The section
  on double precision below reads the same lines with every operation rounded.
\<close>

definition health_factor_proxy :: "features \<Rightarrow> rat" where
  "health_factor_proxy f = total_borrowed_usd f / (total_supplied_usd f + 1 / 1000000)"

text \<open>
  Modelled from the spec: \<^verbatim>\<open>MinMaxScaler().fit_transform\<close> is scikit-learn's and not part
  of the sources. Per column, with the column's batch minimum and maximum:
  \<^verbatim>\<open>normalized = (x - min) / (max - min)\<close>, and \<^verbatim>\<open>normalized = 0\<close> for every row
  when \<^verbatim>\<open>min == max\<close>.
\<close>

definition MinMaxScaler_fit_transform :: "rat list \<Rightarrow> rat list" where
  "MinMaxScaler_fit_transform col =
     (let mn = Min (set col); mx = Max (set col)
      in map (\<lambda>x. if mn = mx then 0 else (x - mn) / (mx - mn)) col)"

record normalized_df =
  n_liquidation_count :: "rat list"
  n_health_factor_proxy :: "rat list"
  n_total_liquidated_usd :: "rat list"
  n_distinct_assets_borrowed :: "rat list"
  n_wallet_age_days :: "rat list"

text \<open>The five columns of \<^verbatim>\<open>features_df[feature_columns]\<close>, as numbers.\<close>

definition feature_columns :: "(string \<times> features) list \<Rightarrow> normalized_df" where
  "feature_columns features_df =
     \<lparr>n_liquidation_count = map (\<lambda>r. of_int (liquidation_count (snd r))) features_df,
      n_health_factor_proxy = map (\<lambda>r. health_factor_proxy (snd r)) features_df,
      n_total_liquidated_usd = map (\<lambda>r. of_int (total_liquidated_usd (snd r))) features_df,
      n_distinct_assets_borrowed = map (\<lambda>r. of_nat (distinct_assets_borrowed (snd r))) features_df,
      n_wallet_age_days = map (\<lambda>r. of_int (wallet_age_days (snd r))) features_df\<rparr>"

definition normalize :: "normalized_df \<Rightarrow> normalized_df" where
  "normalize X =
     \<lparr>n_liquidation_count = MinMaxScaler_fit_transform (n_liquidation_count X),
      n_health_factor_proxy = MinMaxScaler_fit_transform (n_health_factor_proxy X),
      n_total_liquidated_usd = MinMaxScaler_fit_transform (n_total_liquidated_usd X),
      n_distinct_assets_borrowed = MinMaxScaler_fit_transform (n_distinct_assets_borrowed X),
      n_wallet_age_days = MinMaxScaler_fit_transform (n_wallet_age_days X)\<rparr>"

definition invert_wallet_age :: "normalized_df \<Rightarrow> normalized_df" where
  "invert_wallet_age N = N\<lparr>n_wallet_age_days := map (\<lambda>x. 1 - x) (n_wallet_age_days N)\<rparr>"

text \<open>The columns of a table in the order of the list \<^verbatim>\<open>feature_columns\<close>.\<close>

definition columns_of :: "normalized_df \<Rightarrow> rat list list" where
  "columns_of N =
     [n_liquidation_count N, n_health_factor_proxy N, n_total_liquidated_usd N,
      n_distinct_assets_borrowed N, n_wallet_age_days N]"

text \<open>Series arithmetic: a column times a number, and the row-wise sum of two columns.\<close>

definition series_times :: "rat list \<Rightarrow> rat \<Rightarrow> rat list" where
  "series_times xs c = map (\<lambda>x. x * c) xs"

definition series_plus :: "rat list \<Rightarrow> rat list \<Rightarrow> rat list" where
  "series_plus xs ys = map (\<lambda>p. fst p + snd p) (zip xs ys)"

text \<open>
  \<^verbatim>\<open>sum(...)\<close> over the weights in the order of the dictionary, starting from \<open>0\<close>.
\<close>

definition final_score :: "normalized_df \<Rightarrow> rat list" where
  "final_score N =
     series_plus (series_plus (series_plus (series_plus
       (map (\<lambda>x. 0 + x) (series_times (n_liquidation_count N) (40 / 100)))
       (series_times (n_health_factor_proxy N) (30 / 100)))
       (series_times (n_total_liquidated_usd N) (15 / 100)))
       (series_times (n_distinct_assets_borrowed N) (10 / 100)))
       (series_times (n_wallet_age_days N) (5 / 100))"

text \<open>\<^verbatim>\<open>astype(int)\<close> drops the fractional part (rounds towards zero).\<close>

definition astype_int :: "rat \<Rightarrow> int" where
  "astype_int x = (if 0 \<le> x then \<lfloor>x\<rfloor> else \<lceil>x\<rceil>)"

text \<open>Lines 161 to 183: from the feature table to the table of scores.\<close>

definition scorer :: "(string \<times> features) list \<Rightarrow> (string \<times> int) list" where
  "scorer features_df =
     (let normalized = invert_wallet_age (normalize (feature_columns features_df));
          score = map astype_int (series_times (final_score normalized) 1000)
      in zip (map fst features_df) score)"

section \<open>The batch run\<close>

text \<open>
  \<^verbatim>\<open>generate_risk_scores\<close>, given the list that \<^verbatim>\<open>get_wallet_addresses\<close> read. The key
  is \<open>None\<close> when the environment has none. An empty \<^verbatim>\<open>DataFrame\<close> is the empty list.
\<close>

definition generate_risk_scores ::
  "(string \<Rightarrow> string \<Rightarrow> http_result) \<Rightarrow> (nat \<Rightarrow> int) \<Rightarrow> string list \<Rightarrow> string option
     \<Rightarrow> effect list \<times> (string \<times> int) list" where
  "generate_risk_scores requests_get now wallet_addresses api_key =
     (if wallet_addresses = [] then ([], [])
      else
        (case api_key of
           None \<Rightarrow> ([Print ApiKeyNotFound], [])
         | Some key \<Rightarrow>
             if key = [] then ([Print ApiKeyNotFound], [])
             else
               (let results = fetch_results requests_get wallet_addresses key
                in (fetch_trace results,
                    scorer (features_list now (all_transactions results) wallet_addresses)))))"

section \<open>Double precision arithmetic\<close>

text \<open>
  The numbers the scorer computes with are IEEE 754 binary64 values. A finite double is a
  rational; an operation returns the exact result rounded to the nearest double, ties to
  the even significand, with gradual underflow (the spacing never drops below
  \<open>2 powi (- 1074)\<close>). Results beyond the largest finite double are outside this model:
  the scorer's intermediate values stay below 1001 and feature values are far from
  \<open>2 powi 1024\<close>.
\<close>

definition round_half_even :: "rat \<Rightarrow> int" where
  "round_half_even r =
     (let f = \<lfloor>r\<rfloor>; d = r - of_int f
      in if d < 1 / 2 then f else if 1 / 2 < d then f + 1 else if even f then f else f + 1)"

text \<open>\<open>exponent x\<close> is \<open>\<lfloor>log\<^sub>2 x\<rfloor>\<close> for positive \<open>x\<close>, computed from the bit lengths.\<close>

definition exponent :: "rat \<Rightarrow> int" where
  "exponent x =
     (case quotient_of x of (p, q) \<Rightarrow>
        let e = bitlen p - bitlen q in if 2 powi e \<le> x then e else e - 1)"

text \<open>The spacing of the doubles around \<open>x\<close>: 52 fraction bits, least exponent \<open>- 1022\<close>.\<close>

definition quantum :: "rat \<Rightarrow> rat" where
  "quantum x = 2 powi (max (exponent \<bar>x\<bar>) (- 1022) - 52)"

definition round_double :: "rat \<Rightarrow> rat" where
  "round_double x =
     (if x = 0 then 0
      else sgn x * (of_int (round_half_even (\<bar>x\<bar> / quantum x)) * quantum x))"

definition fadd :: "rat \<Rightarrow> rat \<Rightarrow> rat" where
  "fadd a b = round_double (a + b)"

definition fsub :: "rat \<Rightarrow> rat \<Rightarrow> rat" where
  "fsub a b = round_double (a - b)"

definition fmul :: "rat \<Rightarrow> rat \<Rightarrow> rat" where
  "fmul a b = round_double (a * b)"

definition fdiv :: "rat \<Rightarrow> rat \<Rightarrow> rat" where
  "fdiv a b = round_double (a / b)"

section \<open>Scorer in double precision\<close>

text \<open>
  Lines 119 and 163 to 182 again, now with every literal and every operation rounded as
  Python does: \<^verbatim>\<open>0.4\<close> is \<open>round_double (4 / 10)\<close>, \<^verbatim>\<open>a * b\<close> is \<open>fmul a b\<close>. The fields
  of a feature record hold the doubles of the feature table; integer columns are converted.
\<close>

definition total_borrowed_double :: "rat \<Rightarrow> rat" where
  "total_borrowed_double total_supplied = fmul total_supplied (round_double (4 / 10))"

definition health_factor_proxy_double :: "rat \<Rightarrow> rat \<Rightarrow> rat" where
  "health_factor_proxy_double borrowed supplied =
     fdiv borrowed (fadd supplied (round_double (1 / 1000000)))"

text \<open>
  Modelled from the spec: \<^verbatim>\<open>MinMaxScaler().fit_transform\<close> is scikit-learn's and not part
  of the sources. Per column \<^verbatim>\<open>normalized = (x - min) / (max - min)\<close>, each operation
  rounded, and \<^verbatim>\<open>normalized = 0\<close> for every row when \<^verbatim>\<open>min == max\<close>.
\<close>

definition MinMaxScaler_fit_transform_double :: "rat list \<Rightarrow> rat list" where
  "MinMaxScaler_fit_transform_double col =
     (let mn = Min (set col); mx = Max (set col)
      in map (\<lambda>x. if mn = mx then 0 else fdiv (fsub x mn) (fsub mx mn)) col)"

definition feature_columns_double :: "(string \<times> features) list \<Rightarrow> normalized_df" where
  "feature_columns_double features_df =
     \<lparr>n_liquidation_count =
        map (\<lambda>r. round_double (of_int (liquidation_count (snd r)))) features_df,
      n_health_factor_proxy =
        map (\<lambda>r. health_factor_proxy_double (total_borrowed_usd (snd r))
                    (total_supplied_usd (snd r))) features_df,
      n_total_liquidated_usd =
        map (\<lambda>r. round_double (of_int (total_liquidated_usd (snd r)))) features_df,
      n_distinct_assets_borrowed =
        map (\<lambda>r. round_double (of_nat (distinct_assets_borrowed (snd r)))) features_df,
      n_wallet_age_days =
        map (\<lambda>r. round_double (of_int (wallet_age_days (snd r)))) features_df\<rparr>"

definition normalize_double :: "normalized_df \<Rightarrow> normalized_df" where
  "normalize_double X =
     \<lparr>n_liquidation_count = MinMaxScaler_fit_transform_double (n_liquidation_count X),
      n_health_factor_proxy = MinMaxScaler_fit_transform_double (n_health_factor_proxy X),
      n_total_liquidated_usd = MinMaxScaler_fit_transform_double (n_total_liquidated_usd X),
      n_distinct_assets_borrowed =
        MinMaxScaler_fit_transform_double (n_distinct_assets_borrowed X),
      n_wallet_age_days = MinMaxScaler_fit_transform_double (n_wallet_age_days X)\<rparr>"

definition invert_wallet_age_double :: "normalized_df \<Rightarrow> normalized_df" where
  "invert_wallet_age_double N =
     N\<lparr>n_wallet_age_days := map (\<lambda>x. fsub 1 x) (n_wallet_age_days N)\<rparr>"

definition series_times_double :: "rat list \<Rightarrow> rat \<Rightarrow> rat list" where
  "series_times_double xs c = map (\<lambda>x. fmul x c) xs"

definition series_plus_double :: "rat list \<Rightarrow> rat list \<Rightarrow> rat list" where
  "series_plus_double xs ys = map (\<lambda>p. fadd (fst p) (snd p)) (zip xs ys)"

definition final_score_double :: "normalized_df \<Rightarrow> rat list" where
  "final_score_double N =
     series_plus_double (series_plus_double (series_plus_double (series_plus_double
       (map (\<lambda>x. fadd 0 x)
          (series_times_double (n_liquidation_count N) (round_double (40 / 100))))
       (series_times_double (n_health_factor_proxy N) (round_double (30 / 100))))
       (series_times_double (n_total_liquidated_usd N) (round_double (15 / 100))))
       (series_times_double (n_distinct_assets_borrowed N) (round_double (10 / 100))))
       (series_times_double (n_wallet_age_days N) (round_double (5 / 100)))"

definition scorer_double :: "(string \<times> features) list \<Rightarrow> (string \<times> int) list" where
  "scorer_double features_df =
     (let normalized =
            invert_wallet_age_double (normalize_double (feature_columns_double features_df));
          score = map astype_int (series_times_double (final_score_double normalized) 1000)
      in zip (map fst features_df) score)"

section \<open>Example environments\<close>

text \<open>
  Fixed inputs for the closed examples below: a ledger API that is unreachable, one that
  answers per wallet, a clock that stands still at day 200 after the epoch, a wallet list
  and the feature table of that list.
\<close>

definition api_unreachable :: "string \<Rightarrow> string \<Rightarrow> http_result" where
  "api_unreachable address key = RequestException"

definition example_transfers :: "tx list" where
  "example_transfers =
     [\<lparr>tx_contractAddress = ''0x39AA39c021dfbaE8faC545936693aC917d5E7563'', tx_to = ''0xABCD'',
       tx_value = 600000000, tx_timeStamp = 8640000\<rparr>,
      \<lparr>tx_contractAddress = ''0x0000000000000000000000000000000000000001'', tx_to = ''0xabcd'',
       tx_value = 5, tx_timeStamp = 8640001\<rparr>,
      \<lparr>tx_contractAddress = ''0x5d3a536e4d6dbd6114cc1ead35777bab948e3643'', tx_to = ''0xffff'',
       tx_value = 400000000000000000000, tx_timeStamp = 8726400\<rparr>]"

definition example_api :: "string \<Rightarrow> string \<Rightarrow> http_result" where
  "example_api address key =
     (if address = ''0xabcd'' then Json ''1'' example_transfers
      else if address = ''0xffff'' then Json ''1'' example_transfers
      else if address = ''0xeeee'' then Json ''1'' (take 1 (tl example_transfers))
      else if address = ''0x0000'' then Json ''0'' []
      else RequestException)"

definition frozen_clock :: "nat \<Rightarrow> int" where
  "frozen_clock i = 17280000000000"

definition example_wallets :: "string list" where
  "example_wallets = [''0xabcd'', ''0x0000'', ''0xffff'']"

definition example_features_df :: "(string \<times> features) list" where
  "example_features_df =
     [(''0xabcd'', \<lparr>liquidation_count = 0, total_supplied_usd = 600, total_borrowed_usd = 240,
         total_liquidated_usd = 0, distinct_assets_borrowed = 2, wallet_age_days = 100\<rparr>),
      (''0x0000'', \<lparr>liquidation_count = 0, total_supplied_usd = 0, total_borrowed_usd = 0,
         total_liquidated_usd = 0, distinct_assets_borrowed = 0, wallet_age_days = 0\<rparr>),
      (''0xffff'', \<lparr>liquidation_count = 0, total_supplied_usd = 400, total_borrowed_usd = 160,
         total_liquidated_usd = 0, distinct_assets_borrowed = 2, wallet_age_days = 100\<rparr>)]"

text \<open>
  Three wallets whose exact weighted sums are 0.05, 0.395 and 0.4.
\<close>

definition rounding_features_df :: "(string \<times> features) list" where
  "rounding_features_df =
     [(''0x0000'', \<lparr>liquidation_count = 0, total_supplied_usd = 0, total_borrowed_usd = 0,
         total_liquidated_usd = 0, distinct_assets_borrowed = 0, wallet_age_days = 0\<rparr>),
      (''0xaaaa'', \<lparr>liquidation_count = 0, total_supplied_usd = 1000, total_borrowed_usd = 400,
         total_liquidated_usd = 0, distinct_assets_borrowed = 1, wallet_age_days = 1\<rparr>),
      (''0xbbbb'', \<lparr>liquidation_count = 0, total_supplied_usd = 1000, total_borrowed_usd = 400,
         total_liquidated_usd = 0, distinct_assets_borrowed = 2, wallet_age_days = 10\<rparr>)]"

section \<open>Properties of the event fetcher\<close>

lemma registry_lookup:
  "a \<in> set (map fst get_compound_v2_ctokens) \<Longrightarrow> \<exists>info. map_of get_compound_v2_ctokens a = Some info"
  by (cases "map_of get_compound_v2_ctokens a") (simp_all add: map_of_eq_None_iff)

lemma registry_price_pos:
  "map_of get_compound_v2_ctokens a = Some info \<Longrightarrow> 0 < price_usd info"
  by (auto simp: get_compound_v2_ctokens_def split: if_splits)

lemma transactions_loop_kinds:
  "map event_type (transactions_loop w ts) =
     map (\<lambda>t. if lower (tx_to t) = lower w then Mint else Redeem)
       (filter (\<lambda>t. lower (tx_contractAddress t) \<in> set (map fst get_compound_v2_ctokens)) ts)"
proof (induction ts)
  case Nil
  show ?case by simp
next
  case (Cons t ts)
  show ?case
  proof (cases "lower (tx_contractAddress t) \<in> set (map fst get_compound_v2_ctokens)")
    case True
    then obtain info where "map_of get_compound_v2_ctokens (lower (tx_contractAddress t)) = Some info"
      using registry_lookup by blast
    with True Cons.IH show ?thesis by (simp add: Let_def)
  next
    case False
    with Cons.IH show ?thesis by simp
  qed
qed

lemma transactions_loop_none_retained:
  "\<forall>t \<in> set ts. lower (tx_contractAddress t) \<notin> set (map fst get_compound_v2_ctokens)
     \<Longrightarrow> transactions_loop w ts = []"
  by (induction ts) simp_all

lemma transactions_loop_value_nonneg:
  "e \<in> set (transactions_loop w ts) \<Longrightarrow> 0 \<le> value_usd e"
proof (induction ts)
  case Nil
  then show ?case by simp
next
  case (Cons t ts)
  show ?case
  proof (cases "map_of get_compound_v2_ctokens (lower (tx_contractAddress t))")
    case None
    with Cons show ?thesis by (auto simp: Let_def split: if_splits)
  next
    case (Some info)
    then have "0 < price_usd info" by (rule registry_price_pos)
    with Some Cons show ?thesis by (auto simp: Let_def split: if_splits)
  qed
qed

lemma fetch_value_nonneg:
  "e \<in> set (snd (fetch_real_transactions requests_get w k)) \<Longrightarrow> 0 \<le> value_usd e"
  by (auto simp: fetch_real_transactions_def transactions_loop_value_nonneg
      split: http_result.splits if_splits)

lemma total_supplied_nonneg:
  "\<forall>e \<in> set df. 0 \<le> value_usd e \<Longrightarrow> 0 \<le> total_supplied_usd (calculate_features now df)"
  by (auto simp: calculate_features_def Let_def intro!: sum_list_nonneg)

lemma proxy_formula:
  "health_factor_proxy (calculate_features now df) =
     (4 / 10) * total_supplied_usd (calculate_features now df)
       / (total_supplied_usd (calculate_features now df) + 1 / 1000000)"
  by (simp add: health_factor_proxy_def calculate_features_def Let_def)

lemma ratio_bounds:
  fixes s :: rat
  assumes "0 \<le> s"
  shows "0 \<le> (4 / 10) * s / (s + 1 / 1000000)"
    and "(4 / 10) * s / (s + 1 / 1000000) < 4 / 10"
    and "(4 / 10) * s / (s + 1 / 1000000) = 0 \<longleftrightarrow> s = 0"
  using assms by (simp_all add: field_simps)

lemma ratio_mono:
  fixes s s' :: rat
  assumes "0 \<le> s" "s < s'"
  shows "(4 / 10) * s / (s + 1 / 1000000) < (4 / 10) * s' / (s' + 1 / 1000000)"
proof -
  have p: "0 < s + 1 / 1000000" "0 < s' + 1 / 1000000" using assms by simp_all
  have "s * (s' + 1 / 1000000) < s' * (s + 1 / 1000000)"
    using assms by (simp add: algebra_simps)
  then have "s / (s + 1 / 1000000) < s' / (s' + 1 / 1000000)"
    using p by (simp add: field_simps)
  then have "(4 / 10) * (s / (s + 1 / 1000000)) < (4 / 10) * (s' / (s' + 1 / 1000000))"
    by (rule mult_strict_left_mono) simp
  then show ?thesis by (simp only: times_divide_eq_right)
qed

text \<open>The example ledger, evaluated once for any querying wallet.\<close>

lemma example_loop:
  "transactions_loop w example_transfers =
     [\<lparr>timestamp = 8640000000000,
       event_type = (if ''0xabcd'' = lower w then Mint else Redeem),
       asset_symbol = ''cUSDC'', value_usd = 600\<rparr>,
      \<lparr>timestamp = 8726400000000,
       event_type = (if ''0xffff'' = lower w then Mint else Redeem),
       asset_symbol = ''cDAI'', value_usd = 400\<rparr>]"
  by (simp add: example_transfers_def get_compound_v2_ctokens_def lower_def lower_char_def
      fromtimestamp_def)

lemma example_unknown_contract:
  "\<forall>t \<in> set (take 1 (tl example_transfers)).
     lower (tx_contractAddress t) \<notin> set (map fst get_compound_v2_ctokens)"
  by (simp add: example_transfers_def get_compound_v2_ctokens_def lower_def lower_char_def)

lemma example_fetch_abcd:
  "snd (fetch_real_transactions example_api ''0xabcd'' k) =
     [\<lparr>timestamp = 8640000000000, event_type = Mint, asset_symbol = ''cUSDC'', value_usd = 600\<rparr>,
      \<lparr>timestamp = 8726400000000, event_type = Redeem, asset_symbol = ''cDAI'', value_usd = 400\<rparr>]"
  by (simp add: fetch_real_transactions_def example_api_def example_loop lower_def lower_char_def)

lemma example_fetch_ffff:
  "snd (fetch_real_transactions example_api ''0xffff'' k) =
     [\<lparr>timestamp = 8640000000000, event_type = Redeem, asset_symbol = ''cUSDC'', value_usd = 600\<rparr>,
      \<lparr>timestamp = 8726400000000, event_type = Mint, asset_symbol = ''cDAI'', value_usd = 400\<rparr>]"
  by (simp add: fetch_real_transactions_def example_api_def example_loop lower_def lower_char_def)

text \<open>
  C7. A fetch whose request fails, whose answer reports a status other than \<open>1\<close>, or
  whose transfer records all name contracts outside the registry, returns the empty
  sequence of events.
\<close>

theorem failed_or_unmatched_fetch_is_empty:
  "requests_get w k = RequestException
    \<or> (\<exists>status result. requests_get w k = Json status result
          \<and> (status \<noteq> ''1''
              \<or> (\<forall>t \<in> set result.
                    lower (tx_contractAddress t) \<notin> set (map fst get_compound_v2_ctokens))))
   \<Longrightarrow> snd (fetch_real_transactions requests_get w k) = []"
  by (auto simp: fetch_real_transactions_def transactions_loop_none_retained
      simp del: set_map)

text \<open>The three cases on the example ledger.\<close>

theorem failed_or_unmatched_fetch_is_empty_witness:
  "example_api ''0x1111'' ''K'' = RequestException
   \<and> snd (fetch_real_transactions example_api ''0x1111'' ''K'') = []
   \<and> example_api ''0x0000'' ''K'' = Json ''0'' []
   \<and> snd (fetch_real_transactions example_api ''0x0000'' ''K'') = []
   \<and> example_api ''0xeeee'' ''K'' = Json ''1'' (take 1 (tl example_transfers))
   \<and> snd (fetch_real_transactions example_api ''0xeeee'' ''K'') = []"
proof -
  have a: "example_api ''0x1111'' ''K'' = RequestException"
    by (simp add: example_api_def)
  have b: "example_api ''0x0000'' ''K'' = Json ''0'' []"
    by (simp add: example_api_def)
  have c: "example_api ''0xeeee'' ''K'' = Json ''1'' (take 1 (tl example_transfers))"
    by (simp add: example_api_def)
  have "snd (fetch_real_transactions example_api ''0x1111'' ''K'') = []"
    using failed_or_unmatched_fetch_is_empty [of example_api "''0x1111''" "''K''"] a by simp
  moreover have "snd (fetch_real_transactions example_api ''0x0000'' ''K'') = []"
    using failed_or_unmatched_fetch_is_empty [of example_api "''0x0000''" "''K''"] b by simp
  moreover have "snd (fetch_real_transactions example_api ''0xeeee'' ''K'') = []"
    using failed_or_unmatched_fetch_is_empty [of example_api "''0xeeee''" "''K''"] c
      example_unknown_contract by blast
  ultimately show ?thesis using a b c by simp
qed

text \<open>
  C8. On a successful answer the kinds of the events, in order, are those of the retained
  records: \<open>Mint\<close> exactly where the lower-cased destination is the lower-cased queried
  wallet, \<open>Redeem\<close> everywhere else.
\<close>

theorem supply_iff_destination_is_wallet:
  "requests_get w k = Json ''1'' result \<Longrightarrow>
     map event_type (snd (fetch_real_transactions requests_get w k)) =
       map (\<lambda>t. if lower (tx_to t) = lower w then Mint else Redeem)
         (filter (\<lambda>t. lower (tx_contractAddress t) \<in> set (map fst get_compound_v2_ctokens))
            result)"
  by (simp add: fetch_real_transactions_def transactions_loop_kinds del: set_map)

text \<open>The destination \<open>0xABCD\<close> counts as the wallet \<open>0xabcd\<close>.\<close>

theorem supply_iff_destination_is_wallet_witness:
  "example_api ''0xabcd'' ''K'' = Json ''1'' example_transfers
   \<and> map event_type (snd (fetch_real_transactions example_api ''0xabcd'' ''K'')) = [Mint, Redeem]
   \<and> map (\<lambda>t. if lower (tx_to t) = lower ''0xabcd'' then Mint else Redeem)
         (filter (\<lambda>t. lower (tx_contractAddress t) \<in> set (map fst get_compound_v2_ctokens))
            example_transfers) = [Mint, Redeem]"
proof -
  have a: "example_api ''0xabcd'' ''K'' = Json ''1'' example_transfers"
    by (simp add: example_api_def)
  have b: "map event_type (snd (fetch_real_transactions example_api ''0xabcd'' ''K''))
             = [Mint, Redeem]"
    by (simp add: example_fetch_abcd)
  from supply_iff_destination_is_wallet [of example_api "''0xabcd''" "''K''" example_transfers] a
  have "map event_type (snd (fetch_real_transactions example_api ''0xabcd'' ''K'')) =
       map (\<lambda>t. if lower (tx_to t) = lower ''0xabcd'' then Mint else Redeem)
         (filter (\<lambda>t. lower (tx_contractAddress t) \<in> set (map fst get_compound_v2_ctokens))
            example_transfers)"
    by blast
  with a b show ?thesis by simp
qed

section \<open>Properties of the feature extractor\<close>

text \<open>
  C6. A wallet with no events gets the all-zero feature vector: liquidation count, supplied,
  borrowed and liquidated totals, distinct assets and wallet age are all \<open>0\<close>.
\<close>

theorem empty_events_all_zero:
  "calculate_features now [] =
     \<lparr>liquidation_count = 0, total_supplied_usd = 0, total_borrowed_usd = 0,
      total_liquidated_usd = 0, distinct_assets_borrowed = 0, wallet_age_days = 0\<rparr>"
  by (simp add: calculate_features_def)


section \<open>Helper facts about the scorer and the batch run\<close>

lemma fit_transform_length:
  "length (MinMaxScaler_fit_transform col) = length col"
  by (simp add: MinMaxScaler_fit_transform_def Let_def)

lemma fit_transform_nth:
  "i < length col \<Longrightarrow>
     MinMaxScaler_fit_transform col ! i =
       (if Min (set col) = Max (set col) then 0
        else (col ! i - Min (set col)) / (Max (set col) - Min (set col)))"
  by (simp add: MinMaxScaler_fit_transform_def Let_def)

lemma fit_transform_range:
  assumes "i < length col"
  shows "0 \<le> MinMaxScaler_fit_transform col ! i \<and> MinMaxScaler_fit_transform col ! i \<le> 1"
proof (cases "Min (set col) = Max (set col)")
  case True
  with assms show ?thesis by (simp add: fit_transform_nth)
next
  case False
  have mem: "col ! i \<in> set col" using assms by simp
  have lo: "Min (set col) \<le> col ! i" using mem by simp
  have hi: "col ! i \<le> Max (set col)" using mem by simp
  from lo hi False have lt: "Min (set col) < Max (set col)" by simp
  have "0 \<le> (col ! i - Min (set col)) / (Max (set col) - Min (set col))"
    using lo lt by simp
  moreover have "(col ! i - Min (set col)) / (Max (set col) - Min (set col)) \<le> 1"
    using hi lt by simp
  ultimately show ?thesis using assms False by (simp add: fit_transform_nth)
qed

lemma below_five: "k < 5 \<Longrightarrow> k = 0 \<or> k = 1 \<or> k = 2 \<or> k = 3 \<or> k = (4::nat)"
  by arith

lemma columns_of_normalize:
  "k < 5 \<Longrightarrow> columns_of (normalize X) ! k = MinMaxScaler_fit_transform (columns_of X ! k)"
  by (auto dest!: below_five simp: columns_of_def normalize_def)

lemma columns_of_feature_columns_length:
  "k < 5 \<Longrightarrow> length (columns_of (feature_columns features_df) ! k) = length features_df"
  by (auto dest!: below_five simp: columns_of_def feature_columns_def)

lemma series_times_nth:
  "i < length xs \<Longrightarrow> series_times xs c ! i = xs ! i * c"
  by (simp add: series_times_def)

lemma series_times_length: "length (series_times xs c) = length xs"
  by (simp add: series_times_def)

lemma series_plus_nth:
  "i < length xs \<Longrightarrow> i < length ys \<Longrightarrow> series_plus xs ys ! i = xs ! i + ys ! i"
  by (simp add: series_plus_def)

lemma series_plus_length: "length (series_plus xs ys) = min (length xs) (length ys)"
  by (simp add: series_plus_def)

lemma final_score_length:
  assumes "length (n_liquidation_count N) = n" "length (n_health_factor_proxy N) = n"
    "length (n_total_liquidated_usd N) = n" "length (n_distinct_assets_borrowed N) = n"
    "length (n_wallet_age_days N) = n"
  shows "length (final_score N) = n"
  using assms by (simp add: final_score_def series_plus_length series_times_length)

lemma final_score_nth:
  assumes "length (n_liquidation_count N) = n" "length (n_health_factor_proxy N) = n"
    "length (n_total_liquidated_usd N) = n" "length (n_distinct_assets_borrowed N) = n"
    "length (n_wallet_age_days N) = n" "i < n"
  shows "final_score N ! i =
     n_liquidation_count N ! i * (40 / 100) + n_health_factor_proxy N ! i * (30 / 100)
       + n_total_liquidated_usd N ! i * (15 / 100) + n_distinct_assets_borrowed N ! i * (10 / 100)
       + n_wallet_age_days N ! i * (5 / 100)"
  using assms
  by (simp add: final_score_def series_plus_nth series_plus_length series_times_nth
      series_times_length)

lemma normalized_lengths:
  fixes features_df
  defines "N \<equiv> invert_wallet_age (normalize (feature_columns features_df))"
  shows "length (n_liquidation_count N) = length features_df"
    and "length (n_health_factor_proxy N) = length features_df"
    and "length (n_total_liquidated_usd N) = length features_df"
    and "length (n_distinct_assets_borrowed N) = length features_df"
    and "length (n_wallet_age_days N) = length features_df"
  by (simp_all add: N_def invert_wallet_age_def normalize_def feature_columns_def
      fit_transform_length)

lemma normalized_ranges:
  fixes features_df
  defines "N \<equiv> invert_wallet_age (normalize (feature_columns features_df))"
  assumes "i < length features_df"
  shows "0 \<le> n_liquidation_count N ! i \<and> n_liquidation_count N ! i \<le> 1"
    and "0 \<le> n_health_factor_proxy N ! i \<and> n_health_factor_proxy N ! i \<le> 1"
    and "0 \<le> n_total_liquidated_usd N ! i \<and> n_total_liquidated_usd N ! i \<le> 1"
    and "0 \<le> n_distinct_assets_borrowed N ! i \<and> n_distinct_assets_borrowed N ! i \<le> 1"
    and "0 \<le> n_wallet_age_days N ! i \<and> n_wallet_age_days N ! i \<le> 1"
proof -
  have r: "\<And>col. length col = length features_df \<Longrightarrow>
      0 \<le> MinMaxScaler_fit_transform col ! i \<and> MinMaxScaler_fit_transform col ! i \<le> 1"
    using assms(2) by (simp add: fit_transform_range)
  show "0 \<le> n_liquidation_count N ! i \<and> n_liquidation_count N ! i \<le> 1"
    unfolding N_def invert_wallet_age_def normalize_def feature_columns_def
    using r by simp
  show "0 \<le> n_health_factor_proxy N ! i \<and> n_health_factor_proxy N ! i \<le> 1"
    unfolding N_def invert_wallet_age_def normalize_def feature_columns_def
    using r by simp
  show "0 \<le> n_total_liquidated_usd N ! i \<and> n_total_liquidated_usd N ! i \<le> 1"
    unfolding N_def invert_wallet_age_def normalize_def feature_columns_def
    using r by simp
  show "0 \<le> n_distinct_assets_borrowed N ! i \<and> n_distinct_assets_borrowed N ! i \<le> 1"
    unfolding N_def invert_wallet_age_def normalize_def feature_columns_def
    using r by simp
  have "0 \<le> MinMaxScaler_fit_transform (map (\<lambda>r. of_int (wallet_age_days (snd r))) features_df) ! i
      \<and> MinMaxScaler_fit_transform (map (\<lambda>r. of_int (wallet_age_days (snd r))) features_df) ! i \<le> 1"
    using r by simp
  then show "0 \<le> n_wallet_age_days N ! i \<and> n_wallet_age_days N ! i \<le> 1"
    unfolding N_def invert_wallet_age_def normalize_def feature_columns_def
    using assms(2) by (simp add: fit_transform_length)
qed

lemma scorer_length: "length (scorer features_df) = length features_df"
  using final_score_length [OF normalized_lengths, of features_df]
  by (simp add: scorer_def Let_def series_times_length)

lemma scorer_wallets: "map fst (scorer features_df) = map fst features_df"
  using final_score_length [OF normalized_lengths, of features_df]
  by (simp add: scorer_def Let_def series_times_length)

lemma scorer_nth:
  assumes "i < length features_df"
  shows "snd (scorer features_df ! i) =
     astype_int (final_score (invert_wallet_age (normalize (feature_columns features_df))) ! i * 1000)"
  using assms final_score_length [OF normalized_lengths, of features_df]
  by (simp add: scorer_def Let_def series_times_length series_times_nth)

lemma astype_int_bounds:
  assumes "0 \<le> x" "x \<le> 1"
  shows "astype_int (x * 1000) = \<lfloor>x * 1000\<rfloor>"
    and "0 \<le> astype_int (x * 1000)" and "astype_int (x * 1000) \<le> 1000"
proof -
  have a: "0 \<le> x * 1000" using assms by simp
  have b: "x * 1000 \<le> 1000" using assms by simp
  show "astype_int (x * 1000) = \<lfloor>x * 1000\<rfloor>" using a by (simp add: astype_int_def)
  show "0 \<le> astype_int (x * 1000)" using a by (simp add: astype_int_def)
  have "\<lfloor>x * 1000\<rfloor> \<le> \<lfloor>1000 :: rat\<rfloor>" using b by (rule floor_mono)
  then show "astype_int (x * 1000) \<le> 1000" using a by (simp add: astype_int_def)
qed

lemma all_transactions_fold:
  "fold (\<lambda>r m. case r of (effects, address, transactions_df) \<Rightarrow> m(address \<mapsto> transactions_df))
     (fetch_results requests_get ws k) m a =
   (if a \<in> set ws then Some (snd (fetch_real_transactions requests_get a k)) else m a)"
proof (induction ws arbitrary: m)
  case Nil
  show ?case by (simp add: fetch_results_def)
next
  case (Cons w ws)
  have step: "fetch_results requests_get (w # ws) k =
      (fst (fetch_real_transactions requests_get w k), w,
       snd (fetch_real_transactions requests_get w k)) # fetch_results requests_get ws k"
    by (simp add: fetch_results_def fetch_wallet_data_wrapper_def split_beta)
  show ?case unfolding step using Cons.IH by simp
qed

lemma all_transactions_lookup:
  "a \<in> set ws \<Longrightarrow>
     all_transactions (fetch_results requests_get ws k) a
       = Some (snd (fetch_real_transactions requests_get a k))"
  by (simp add: all_transactions_def all_transactions_fold)

lemma features_list_length: "length (features_list now transactions ws) = length ws"
  by (simp add: features_list_def)

lemma features_list_wallets: "map fst (features_list now transactions ws) = ws"
proof -
  have "map fst (features_list now transactions ws) = map (\<lambda>i. ws ! i) [0 ..< length ws]"
    by (simp add: features_list_def Let_def comp_def)
  then show ?thesis by (simp add: map_nth)
qed

lemma features_list_nth:
  "i < length ws \<Longrightarrow>
     features_list now (all_transactions (fetch_results requests_get ws k)) ws ! i =
       (ws ! i, calculate_features (now i) (snd (fetch_real_transactions requests_get (ws ! i) k)))"
  by (simp add: features_list_def Let_def all_transactions_lookup)

lemma features_list_single:
  "features_list now transactions [w] =
     [(w, calculate_features (now 0) (case transactions w of None \<Rightarrow> [] | Some df \<Rightarrow> df))]"
  by (simp add: features_list_def Let_def)

lemma run_with_key:
  "ws \<noteq> [] \<Longrightarrow> key \<noteq> [] \<Longrightarrow>
     snd (generate_risk_scores requests_get now ws (Some key)) =
       scorer (features_list now (all_transactions (fetch_results requests_get ws key)) ws)"
  by (simp add: generate_risk_scores_def Let_def)

lemma run_wallets:
  "key \<noteq> [] \<Longrightarrow> map fst (snd (generate_risk_scores requests_get now ws (Some key))) = ws"
proof (cases "ws = []")
  case True
  then show ?thesis by (simp add: generate_risk_scores_def)
next
  case False
  assume "key \<noteq> []"
  with False show ?thesis
    by (simp add: run_with_key scorer_wallets features_list_wallets)
qed

lemma single_column_tied: "Min (set [x :: rat]) = Max (set [x])"
  by simp

lemma single_normalized:
  "normalize (feature_columns [(w, f)]) =
     \<lparr>n_liquidation_count = [0], n_health_factor_proxy = [0], n_total_liquidated_usd = [0],
      n_distinct_assets_borrowed = [0], n_wallet_age_days = [0]\<rparr>"
  by (simp add: normalize_def feature_columns_def MinMaxScaler_fit_transform_def)

lemma scorer_single: "scorer [(w, f)] = [(w, 50)]"
  by (simp add: scorer_def single_normalized invert_wallet_age_def final_score_def
      series_plus_def series_times_def astype_int_def)

lemma single_wallet_run:
  "key \<noteq> [] \<Longrightarrow> snd (generate_risk_scores requests_get now [w] (Some key)) = [(w, 50)]"
  by (simp add: run_with_key features_list_single scorer_single)

lemma no_key_run:
  "ws \<noteq> [] \<Longrightarrow> api_key = None \<or> api_key = Some [] \<Longrightarrow>
     generate_risk_scores requests_get now ws api_key = ([Print ApiKeyNotFound], [])"
  by (auto simp: generate_risk_scores_def)

lemma empty_input_run: "generate_risk_scores requests_get now [] api_key = ([], [])"
  by (simp add: generate_risk_scores_def)

lemma run_with_key_not_empty:
  "ws \<noteq> [] \<Longrightarrow> key \<noteq> [] \<Longrightarrow> snd (generate_risk_scores requests_get now ws (Some key)) \<noteq> []"
proof -
  assume ws: "ws \<noteq> []" and key: "key \<noteq> []"
  have "length (snd (generate_risk_scores requests_get now ws (Some key))) = length ws"
    using ws key by (simp add: run_with_key scorer_length features_list_length)
  with ws show ?thesis by auto
qed

lemma example_fetch_0000: "snd (fetch_real_transactions example_api ''0x0000'' k) = []"
  by (simp add: fetch_real_transactions_def example_api_def)

lemma example_features_list:
  "features_list frozen_clock
     (all_transactions (fetch_results example_api example_wallets ''K'')) example_wallets
   = example_features_df"
proof -
  have l: "length example_wallets = Suc (Suc (Suc 0))" by (simp add: example_wallets_def)
  have a: "features_list frozen_clock
     (all_transactions (fetch_results example_api example_wallets ''K'')) example_wallets ! 0
     = example_features_df ! 0"
    by (simp add: features_list_nth l)
      (simp add: example_wallets_def example_features_df_def example_fetch_abcd
        calculate_features_def frozen_clock_def days_def)
  have b: "features_list frozen_clock
     (all_transactions (fetch_results example_api example_wallets ''K'')) example_wallets ! Suc 0
     = example_features_df ! Suc 0"
    by (simp add: features_list_nth l)
      (simp add: example_wallets_def example_features_df_def example_fetch_0000
        calculate_features_def frozen_clock_def days_def)
  have c: "features_list frozen_clock
     (all_transactions (fetch_results example_api example_wallets ''K'')) example_wallets ! Suc (Suc 0)
     = example_features_df ! Suc (Suc 0)"
    by (simp add: features_list_nth l)
      (simp add: example_wallets_def example_features_df_def example_fetch_ffff
        calculate_features_def frozen_clock_def days_def)
  have "length (features_list frozen_clock
     (all_transactions (fetch_results example_api example_wallets ''K'')) example_wallets) = 3"
    by (simp add: features_list_length l)
  moreover have "length example_features_df = 3" by (simp add: example_features_df_def)
  ultimately show ?thesis
    using a b c by (auto simp: list_eq_iff_nth_eq less_Suc_eq numeral_3_eq_3)
qed

lemma example_normalized:
  "invert_wallet_age (normalize (feature_columns example_features_df)) =
     \<lparr>n_liquidation_count = [0, 0, 0],
      n_health_factor_proxy = [1, 0, 600000001 / 600000001.5],
      n_total_liquidated_usd = [0, 0, 0],
      n_distinct_assets_borrowed = [1, 0, 1],
      n_wallet_age_days = [0, 1, 0]\<rparr>"
  by (simp add: invert_wallet_age_def normalize_def feature_columns_def example_features_df_def
      MinMaxScaler_fit_transform_def health_factor_proxy_def)

lemma example_scores:
  "scorer example_features_df = [(''0xabcd'', 400), (''0x0000'', 50), (''0xffff'', 399)]"
proof -
  have f: "\<lfloor>160000000300 / 400000001 :: rat\<rfloor> = 399"
    by (simp add: floor_eq_iff)
  have w: "map fst example_features_df = [''0xabcd'', ''0x0000'', ''0xffff'']"
    by (simp add: example_features_df_def)
  show ?thesis
    by (simp add: scorer_def example_normalized final_score_def series_plus_def series_times_def
        astype_int_def w f)
qed

section \<open>Properties of the scorer\<close>

text \<open>
  C3. Each of the five columns is rescaled on its own: with \<open>mn\<close> and \<open>mx\<close> the least and
  greatest value of column \<open>k\<close> over the batch, row \<open>i\<close> becomes
  \<open>(x - mn) / (mx - mn)\<close>, every rescaled value lies in \<open>[0, 1]\<close>, and a column whose
  rows are all tied (\<open>mn = mx\<close>) becomes \<open>0\<close> in every row.
\<close>

theorem normalized_columns_rescaled:
  "k < 5 \<Longrightarrow> i < length features_df \<Longrightarrow>
     (let raw = columns_of (feature_columns features_df) ! k;
          nrm = columns_of (normalize (feature_columns features_df)) ! k;
          mn = Min (set raw);
          mx = Max (set raw)
      in length raw = length features_df
         \<and> length nrm = length features_df
         \<and> (mn \<noteq> mx \<longrightarrow> nrm ! i = (raw ! i - mn) / (mx - mn))
         \<and> (mn = mx \<longrightarrow> nrm ! i = 0)
         \<and> 0 \<le> nrm ! i \<and> nrm ! i \<le> 1)"
proof -
  assume k: "k < 5" and i: "i < length features_df"
  define raw where "raw = columns_of (feature_columns features_df) ! k"
  have len: "length raw = length features_df"
    unfolding raw_def using k by (rule columns_of_feature_columns_length)
  have nrm: "columns_of (normalize (feature_columns features_df)) ! k
               = MinMaxScaler_fit_transform raw"
    unfolding raw_def using k by (rule columns_of_normalize)
  have i': "i < length raw" using i len by simp
  show ?thesis
    unfolding Let_def nrm raw_def [symmetric]
    using len fit_transform_length [of raw] fit_transform_nth [OF i'] fit_transform_range [OF i']
    by simp
qed

text \<open>
  On the example table: the health factor column (index 1) at the third row, and the
  liquidation count column (index 0), whose rows are all tied.
\<close>

theorem normalized_columns_rescaled_witness:
  "(1::nat) < 5 \<and> (2::nat) < length example_features_df
   \<and> length (columns_of (normalize (feature_columns example_features_df)) ! 1) = 3
   \<and> 0 \<le> columns_of (normalize (feature_columns example_features_df)) ! 1 ! 2
   \<and> columns_of (normalize (feature_columns example_features_df)) ! 1 ! 2 \<le> 1
   \<and> (0::nat) < 5
   \<and> Min (set (columns_of (feature_columns example_features_df) ! 0))
       = Max (set (columns_of (feature_columns example_features_df) ! 0))
   \<and> columns_of (normalize (feature_columns example_features_df)) ! 0 ! 2 = 0"
proof -
  have i: "(2::nat) < length example_features_df"
    by (simp add: example_features_df_def)
  have l: "length example_features_df = 3"
    by (simp add: example_features_df_def)
  have t: "Min (set (columns_of (feature_columns example_features_df) ! 0))
       = Max (set (columns_of (feature_columns example_features_df) ! 0))"
    by (simp add: columns_of_def feature_columns_def example_features_df_def)
  have a: "length (columns_of (normalize (feature_columns example_features_df)) ! 1) = 3
   \<and> 0 \<le> columns_of (normalize (feature_columns example_features_df)) ! 1 ! 2
   \<and> columns_of (normalize (feature_columns example_features_df)) ! 1 ! 2 \<le> 1"
    using normalized_columns_rescaled [of 1 2 example_features_df] i l
    unfolding Let_def by simp
  have b: "columns_of (normalize (feature_columns example_features_df)) ! 0 ! 2 = 0"
    using normalized_columns_rescaled [of 0 2 example_features_df] i t
    unfolding Let_def by simp
  from i t a b show ?thesis by simp
qed

text \<open>
  C1. A batch of one wallet, run with a key: every feature column has equal minimum and
  maximum, so every column is normalized to \<open>0\<close>; the inversion then turns the wallet age
  column into \<open>1\<close>, and the score of the single wallet is \<open>floor (0.05 * 1000) = 50\<close>.
\<close>

theorem single_wallet_score_is_fifty:
  "key \<noteq> [] \<Longrightarrow>
     (\<forall>col \<in> set (columns_of (feature_columns [(w, f)])). Min (set col) = Max (set col))
     \<and> columns_of (normalize (feature_columns [(w, f)])) = [[0], [0], [0], [0], [0]]
     \<and> n_wallet_age_days (invert_wallet_age (normalize (feature_columns [(w, f)]))) = [1]
     \<and> scorer [(w, f)] = [(w, 50)]
     \<and> snd (generate_risk_scores requests_get now [w] (Some key)) = [(w, 50)]"
proof -
  assume key: "key \<noteq> []"
  have a: "\<forall>col \<in> set (columns_of (feature_columns [(w, f)])). Min (set col) = Max (set col)"
    by (simp add: columns_of_def feature_columns_def)
  have b: "columns_of (normalize (feature_columns [(w, f)])) = [[0], [0], [0], [0], [0]]"
    by (simp add: columns_of_def single_normalized)
  have c: "n_wallet_age_days (invert_wallet_age (normalize (feature_columns [(w, f)]))) = [1]"
    by (simp add: invert_wallet_age_def single_normalized)
  from a b c key show ?thesis by (simp only: scorer_single single_wallet_run simp_thms)
qed

text \<open>The wallet \<open>0xabcd\<close> of the example ledger, scored alone.\<close>

theorem single_wallet_score_is_fifty_witness:
  "''K'' \<noteq> []
   \<and> scorer [(''0xabcd'', snd (example_features_df ! 0))] = [(''0xabcd'', 50)]
   \<and> snd (generate_risk_scores example_api frozen_clock [''0xabcd''] (Some ''K''))
       = [(''0xabcd'', 50)]"
proof -
  have k: "''K'' \<noteq> []" by simp
  show ?thesis
    using single_wallet_score_is_fifty
      [of "''K''" "''0xabcd''" "snd (example_features_df ! 0)" example_api frozen_clock] k
    by blast
qed

text \<open>The score of a wallet that is alone in its batch is 50, not 0.\<close>

theorem single_wallet_score_not_zero:
  "map snd (snd (generate_risk_scores example_api frozen_clock [''0xabcd''] (Some ''K''))) = [50]
   \<and> map snd (snd (generate_risk_scores example_api frozen_clock [''0xabcd''] (Some ''K'')))
       \<noteq> [0]"
  by (simp add: single_wallet_run)

section \<open>Properties of the batch run\<close>

text \<open>
  C9. A run with a key builds one feature row and one score row per entry of the wallet
  list, wallets without events included, and both tables list the wallets in input order.
\<close>

theorem one_score_per_wallet_in_order:
  "key \<noteq> [] \<Longrightarrow>
     (let features_df =
            features_list now (all_transactions (fetch_results requests_get ws key)) ws;
          final_df = snd (generate_risk_scores requests_get now ws (Some key))
      in length features_df = length ws \<and> map fst features_df = ws
         \<and> length final_df = length ws \<and> map fst final_df = ws)"
proof -
  assume key: "key \<noteq> []"
  have w: "map fst (snd (generate_risk_scores requests_get now ws (Some key))) = ws"
    using key by (rule run_wallets)
  have "length (map fst (snd (generate_risk_scores requests_get now ws (Some key)))) = length ws"
    by (simp only: w)
  then have l: "length (snd (generate_risk_scores requests_get now ws (Some key))) = length ws"
    by simp
  show ?thesis
    unfolding Let_def using w l by (simp add: features_list_length features_list_wallets)
qed

text \<open>The example wallets; \<open>0x0000\<close> has no events and still gets its row.\<close>

theorem one_score_per_wallet_in_order_witness:
  "''K'' \<noteq> []
   \<and> map fst (features_list frozen_clock
        (all_transactions (fetch_results example_api example_wallets ''K'')) example_wallets)
       = example_wallets
   \<and> map fst (snd (generate_risk_scores example_api frozen_clock example_wallets (Some ''K'')))
       = example_wallets
   \<and> length (snd (generate_risk_scores example_api frozen_clock example_wallets (Some ''K'')))
       = length example_wallets
   \<and> snd (generate_risk_scores example_api frozen_clock example_wallets (Some ''K''))
       = [(''0xabcd'', 400), (''0x0000'', 50), (''0xffff'', 399)]"
proof -
  have k: "''K'' \<noteq> []" by simp
  have e: "example_wallets \<noteq> []" by (simp add: example_wallets_def)
  have r: "snd (generate_risk_scores example_api frozen_clock example_wallets (Some ''K''))
       = [(''0xabcd'', 400), (''0x0000'', 50), (''0xffff'', 399)]"
    using e by (simp add: run_with_key example_features_list example_scores)
  show ?thesis
    using one_score_per_wallet_in_order [of "''K''" frozen_clock example_api example_wallets] k r
    unfolding Let_def by simp
qed

text \<open>
  C4. With a non-empty wallet list and a key that is absent or empty, the run performs no
  request and prints one error line; the table it returns is empty, which is the table an
  empty wallet list returns too (only the printed line tells the two apart), and differs
  from the table of any run with a key, whatever its fetches return.
\<close>

theorem missing_key_returns_empty_table:
  "ws \<noteq> [] \<Longrightarrow> api_key = None \<or> api_key = Some [] \<Longrightarrow> key \<noteq> [] \<Longrightarrow>
     generate_risk_scores requests_get now ws api_key = ([Print ApiKeyNotFound], [])
     \<and> snd (generate_risk_scores requests_get now ws api_key)
         = snd (generate_risk_scores requests_get' now' [] api_key')
     \<and> fst (generate_risk_scores requests_get now ws api_key)
         \<noteq> fst (generate_risk_scores requests_get' now' [] api_key')
     \<and> snd (generate_risk_scores requests_get now ws api_key)
         \<noteq> snd (generate_risk_scores requests_get' now' ws (Some key))"
proof -
  assume ws: "ws \<noteq> []" and k: "api_key = None \<or> api_key = Some []" and key: "key \<noteq> []"
  have a: "generate_risk_scores requests_get now ws api_key = ([Print ApiKeyNotFound], [])"
    using ws k by (rule no_key_run)
  have b: "snd (generate_risk_scores requests_get' now' ws (Some key)) \<noteq> []"
    using ws key by (rule run_with_key_not_empty)
  show ?thesis
    unfolding a empty_input_run using b by simp
qed

text \<open>The example wallets without a key and with an empty key.\<close>

theorem missing_key_returns_empty_table_witness:
  "example_wallets \<noteq> [] \<and> ''K'' \<noteq> []
   \<and> generate_risk_scores example_api frozen_clock example_wallets None
        = ([Print ApiKeyNotFound], [])
   \<and> generate_risk_scores example_api frozen_clock example_wallets (Some [])
        = ([Print ApiKeyNotFound], [])
   \<and> snd (generate_risk_scores example_api frozen_clock example_wallets None)
        \<noteq> snd (generate_risk_scores api_unreachable frozen_clock example_wallets (Some ''K''))"
proof -
  have e: "example_wallets \<noteq> []" by (simp add: example_wallets_def)
  have k: "''K'' \<noteq> []" by simp
  show ?thesis
    using missing_key_returns_empty_table
        [of example_wallets None "''K''" example_api frozen_clock api_unreachable frozen_clock]
      missing_key_returns_empty_table
        [of example_wallets "Some []" "''K''" example_api frozen_clock api_unreachable frozen_clock]
      e k
    by blast
qed

text \<open>A missing key and an empty wallet list hand the same table to the caller.\<close>

theorem missing_key_same_table_as_empty_input:
  "snd (generate_risk_scores example_api frozen_clock example_wallets None)
     = snd (generate_risk_scores example_api frozen_clock [] (Some ''K''))"
  by (simp add: generate_risk_scores_def example_wallets_def)

section \<open>Properties of rounding to double\<close>

lemma rhe_lower: "\<lfloor>r\<rfloor> \<le> round_half_even r"
  by (simp add: round_half_even_def Let_def)

lemma rhe_upper: "round_half_even r \<le> \<lceil>r\<rceil>"
proof -
  have "r - of_int \<lfloor>r\<rfloor> < 1 / 2 \<or> \<lfloor>r\<rfloor> + 1 \<le> \<lceil>r\<rceil> \<or> r = of_int \<lfloor>r\<rfloor>"
    by (metis ceiling_altdef order_refl)
  moreover have "\<lfloor>r\<rfloor> \<le> \<lceil>r\<rceil>" by (simp add: floor_le_ceiling)
  ultimately show ?thesis
    by (auto simp: round_half_even_def Let_def)
qed

lemma rhe_of_int: "round_half_even (of_int n) = n"
  by (simp add: round_half_even_def)

lemma rhe_mono: "r \<le> s \<Longrightarrow> round_half_even r \<le> round_half_even s"
proof -
  assume rs: "r \<le> s"
  have fl: "\<lfloor>r\<rfloor> \<le> \<lfloor>s\<rfloor>" using rs by (rule floor_mono)
  show ?thesis
  proof (cases "\<lfloor>r\<rfloor> = \<lfloor>s\<rfloor>")
    case True
    have "r - of_int \<lfloor>r\<rfloor> \<le> s - of_int \<lfloor>s\<rfloor>" using rs True by simp
    then show ?thesis using True
      by (auto simp: round_half_even_def Let_def)
  next
    case False
    with fl have "\<lfloor>r\<rfloor> + 1 \<le> \<lfloor>s\<rfloor>" by simp
    moreover have "round_half_even r \<le> \<lfloor>r\<rfloor> + 1"
      by (simp add: round_half_even_def Let_def)
    ultimately show ?thesis using rhe_lower [of s] by linarith
  qed
qed

lemma rhe_err: "\<bar>of_int (round_half_even r) - r\<bar> \<le> 1 / 2"
proof -
  define d where "d = r - of_int \<lfloor>r\<rfloor>"
  have a: "0 \<le> d" by (simp add: d_def)
  have b: "d < 1" unfolding d_def by linarith
  have r: "r = of_int \<lfloor>r\<rfloor> + d" by (simp add: d_def)
  have rh: "round_half_even r =
      (if d < 1 / 2 then \<lfloor>r\<rfloor> else if 1 / 2 < d then \<lfloor>r\<rfloor> + 1
       else if even \<lfloor>r\<rfloor> then \<lfloor>r\<rfloor> else \<lfloor>r\<rfloor> + 1)"
    unfolding round_half_even_def Let_def d_def by (rule refl)
  have "round_half_even r = \<lfloor>r\<rfloor> \<and> d \<le> 1 / 2
      \<or> round_half_even r = \<lfloor>r\<rfloor> + 1 \<and> 1 / 2 \<le> d"
    unfolding rh by (cases "d < 1 / 2"; cases "1 / 2 < d"; cases "even \<lfloor>r\<rfloor>") simp_all
  then show ?thesis
  proof
    assume h: "round_half_even r = \<lfloor>r\<rfloor> \<and> d \<le> 1 / 2"
    then have "of_int (round_half_even r) - r = - d" using r by simp
    then show ?thesis using a h by simp
  next
    assume h: "round_half_even r = \<lfloor>r\<rfloor> + 1 \<and> 1 / 2 \<le> d"
    then have "of_int (round_half_even r) - r = 1 - d" using r by simp
    then show ?thesis using b h by simp
  qed
qed

lemma rhe_nonneg: "0 \<le> r \<Longrightarrow> 0 \<le> round_half_even r"
  using rhe_lower [of r] by (smt (verit) zero_le_floor)

lemma exponent_bounds:
  assumes "0 < x"
  shows "2 powi (exponent x) \<le> x" and "x < 2 powi (exponent x + 1)"
proof -
  obtain p q where pq: "quotient_of x = (p, q)" by (cases "quotient_of x")
  have q: "0 < q" using pq by (rule quotient_of_denom_pos)
  have x: "x = of_int p / of_int q" using pq by (rule quotient_of_div)
  have p: "0 < p" using assms x q by (simp add: zero_less_divide_iff)
  have bp: "1 \<le> bitlen p" using p by (simp add: bitlen_alt_def)
  have bq: "1 \<le> bitlen q" using q by (simp add: bitlen_alt_def)
  have p1: "(2::rat) powi (bitlen p - 1) \<le> of_int p"
  proof -
    have "(2::int) ^ nat (bitlen p - 1) \<le> p" using bitlen_bounds [OF p] by simp
    then have "(of_int ((2::int) ^ nat (bitlen p - 1)) :: rat) \<le> of_int p"
      by (simp only: of_int_le_iff)
    moreover have "(2::rat) powi (bitlen p - 1) = 2 ^ nat (bitlen p - 1)"
      using bp by (simp add: power_int_def)
    ultimately show ?thesis by simp
  qed
  have p2: "of_int p < (2::rat) powi (bitlen p)"
  proof -
    have "p < (2::int) ^ nat (bitlen p)" using bitlen_bounds [OF p] by simp
    then have "(of_int p :: rat) < of_int ((2::int) ^ nat (bitlen p))"
      by (simp only: of_int_less_iff)
    moreover have "(2::rat) powi (bitlen p) = 2 ^ nat (bitlen p)"
      using bp by (simp add: power_int_def)
    ultimately show ?thesis by simp
  qed
  have q1: "(2::rat) powi (bitlen q - 1) \<le> of_int q"
  proof -
    have "(2::int) ^ nat (bitlen q - 1) \<le> q" using bitlen_bounds [OF q] by simp
    then have "(of_int ((2::int) ^ nat (bitlen q - 1)) :: rat) \<le> of_int q"
      by (simp only: of_int_le_iff)
    moreover have "(2::rat) powi (bitlen q - 1) = 2 ^ nat (bitlen q - 1)"
      using bq by (simp add: power_int_def)
    ultimately show ?thesis by simp
  qed
  have q2: "of_int q < (2::rat) powi (bitlen q)"
  proof -
    have "q < (2::int) ^ nat (bitlen q)" using bitlen_bounds [OF q] by simp
    then have "(of_int q :: rat) < of_int ((2::int) ^ nat (bitlen q))"
      by (simp only: of_int_less_iff)
    moreover have "(2::rat) powi (bitlen q) = 2 ^ nat (bitlen q)"
      using bq by (simp add: power_int_def)
    ultimately show ?thesis by simp
  qed
  define e where "e = bitlen p - bitlen q"
  have ex: "exponent x = (if 2 powi e \<le> x then e else e - 1)"
    by (simp add: exponent_def pq e_def Let_def)
  have qpos: "(0::rat) < of_int q" using q by simp
  have up: "x < 2 powi (e + 1)"
  proof -
    have "x * of_int q = of_int p" using x qpos by simp
    also have "\<dots> < 2 powi (bitlen p)" by (rule p2)
    also have "\<dots> = (2::rat) powi (e + 1) * 2 powi (bitlen q - 1)"
      by (simp add: e_def power_int_add [symmetric])
    also have "\<dots> \<le> 2 powi (e + 1) * of_int q"
      using q1 by (simp add: mult_left_mono)
    finally show ?thesis using qpos by simp
  qed
  have lo: "2 powi (e - 1) \<le> x"
  proof -
    have "(2::rat) powi (e - 1) * of_int q \<le> 2 powi (e - 1) * 2 powi (bitlen q)"
      using q2 by (simp add: mult_left_mono)
    also have "\<dots> = 2 powi (bitlen p - 1)"
      by (simp add: e_def power_int_add [symmetric])
    also have "\<dots> \<le> of_int p" by (rule p1)
    also have "\<dots> = x * of_int q" using x qpos by simp
    finally show ?thesis using qpos by simp
  qed
  show "2 powi (exponent x) \<le> x" using ex lo by simp
  show "x < 2 powi (exponent x + 1)" using ex up by (auto simp: not_le)
qed

lemma powi2_less_imp: "(2::rat) powi a < 2 powi b \<Longrightarrow> a < b"
proof (rule ccontr)
  assume l: "(2::rat) powi a < 2 powi b" and "\<not> a < b"
  then have "b \<le> a" by simp
  then have "(2::rat) powi b \<le> 2 powi a" by (rule power_int_increasing) simp
  with l show False by simp
qed

lemma exponent_unique:
  assumes "0 < x" "2 powi e \<le> x" "x < 2 powi (e + 1)"
  shows "exponent x = e"
proof -
  have "(2::rat) powi e < 2 powi (exponent x + 1)"
    using assms(2) exponent_bounds(2) [OF assms(1)] by (rule le_less_trans)
  then have a: "e < exponent x + 1" by (rule powi2_less_imp)
  have "(2::rat) powi (exponent x) < 2 powi (e + 1)"
    using exponent_bounds(1) [OF assms(1)] assms(3) by (rule le_less_trans)
  then have b: "exponent x < e + 1" by (rule powi2_less_imp)
  from a b show ?thesis by simp
qed

lemma exponent_mono:
  assumes "0 < x" "x \<le> y"
  shows "exponent x \<le> exponent y"
proof -
  have y: "0 < y" using assms by simp
  have "(2::rat) powi (exponent x) \<le> x" using assms(1) by (rule exponent_bounds)
  also have "\<dots> \<le> y" by (rule assms(2))
  also have "\<dots> < 2 powi (exponent y + 1)" using y by (rule exponent_bounds)
  finally have "exponent x < exponent y + 1" by (rule powi2_less_imp)
  then show ?thesis by simp
qed


lemma quantum_pos: "0 < quantum x"
  by (simp add: quantum_def)

lemma quantum_abs: "quantum \<bar>x\<bar> = quantum x"
  by (simp add: quantum_def)

lemma quantum_minus: "quantum (- x) = quantum x"
  by (simp add: quantum_def)

lemma round_double_zero: "round_double 0 = 0"
  by (simp add: round_double_def)

lemma round_double_minus: "round_double (- x) = - round_double x"
  by (simp add: round_double_def quantum_minus sgn_minus)

lemma round_double_pos:
  "0 < x \<Longrightarrow> round_double x = of_int (round_half_even (x / quantum x)) * quantum x"
  by (simp add: round_double_def)

lemma round_double_nonneg: "0 \<le> x \<Longrightarrow> 0 \<le> round_double x"
proof (cases "x = 0")
  case True
  then show ?thesis by (simp add: round_double_zero)
next
  case False
  assume "0 \<le> x"
  with False have x: "0 < x" by simp
  have "0 \<le> x / quantum x" using x quantum_pos [of x] by simp
  then have "0 \<le> round_half_even (x / quantum x)" by (rule rhe_nonneg)
  then show ?thesis using x quantum_pos [of x] by (simp add: round_double_pos)
qed

lemma round_double_mono_pos:
  assumes x: "0 < x" and xy: "x \<le> y"
  shows "round_double x \<le> round_double y"
proof -
  have y: "0 < y" using x xy by simp
  define kx where "kx = max (exponent x) (- 1022) - 52"
  define ky where "ky = max (exponent y) (- 1022) - 52"
  have qx: "quantum x = 2 powi kx" using x by (simp add: quantum_def kx_def)
  have qy: "quantum y = 2 powi ky" using y by (simp add: quantum_def ky_def)
  have ex: "exponent x \<le> exponent y" using x xy by (rule exponent_mono)
  then have k: "kx \<le> ky" by (simp add: kx_def ky_def)
  have rx: "round_double x = of_int (round_half_even (x / 2 powi kx)) * 2 powi kx"
    using x by (simp add: round_double_pos qx)
  have ry: "round_double y = of_int (round_half_even (y / 2 powi ky)) * 2 powi ky"
    using y by (simp add: round_double_pos qy)
  show ?thesis
  proof (cases "kx = ky")
    case True
    have "x / 2 powi ky \<le> y / 2 powi ky" using xy by (simp add: divide_right_mono)
    then have "round_half_even (x / 2 powi ky) \<le> round_half_even (y / 2 powi ky)"
      by (rule rhe_mono)
    then have "(of_int (round_half_even (x / 2 powi ky)) :: rat)
        \<le> of_int (round_half_even (y / 2 powi ky))" by simp
    then show ?thesis unfolding rx ry True by (simp add: mult_right_mono)
  next
    case False
    with k have lt: "kx < ky" by simp
    then have ey: "ky = exponent y - 52" and exy: "kx + 53 \<le> exponent y"
      by (auto simp: kx_def ky_def)
    have top: "x < 2 powi (kx + 53)"
    proof -
      have "x < 2 powi (exponent x + 1)" using x by (rule exponent_bounds)
      also have "\<dots> \<le> 2 powi (kx + 53)"
        by (rule power_int_increasing) (simp_all add: kx_def)
      finally show ?thesis .
    qed
    have "x / 2 powi kx \<le> 2 powi (kx + 53) / 2 powi kx"
      using top by (simp add: divide_right_mono)
    also have "\<dots> = of_int (2 ^ 53)"
      by (simp add: power_int_add)
    finally have "round_half_even (x / 2 powi kx) \<le> round_half_even (of_int (2 ^ 53))"
      by (rule rhe_mono)
    then have "round_half_even (x / 2 powi kx) \<le> 2 ^ 53" by (simp only: rhe_of_int)
    then have "(of_int (round_half_even (x / 2 powi kx)) :: rat) \<le> of_int (2 ^ 53)"
      by (simp only: of_int_le_iff)
    then have "round_double x \<le> of_int (2 ^ 53) * 2 powi kx"
      unfolding rx by (simp add: mult_right_mono)
    also have "\<dots> = 2 powi (kx + 53)" by (simp add: power_int_add)
    also have "\<dots> \<le> 2 powi (exponent y)"
      using exy by (rule power_int_increasing) simp
    finally have a: "round_double x \<le> 2 powi (exponent y)" .
    have "(of_int (2 ^ 52) :: rat) = 2 powi (exponent y) / 2 powi ky"
      by (simp add: ey power_int_diff)
    also have "\<dots> \<le> y / 2 powi ky"
      using exponent_bounds(1) [OF y] by (simp add: divide_right_mono)
    finally have "round_half_even (of_int (2 ^ 52)) \<le> round_half_even (y / 2 powi ky)"
      by (rule rhe_mono)
    then have "2 ^ 52 \<le> round_half_even (y / 2 powi ky)" by (simp only: rhe_of_int)
    then have "(of_int (2 ^ 52) :: rat) \<le> of_int (round_half_even (y / 2 powi ky))"
      by (simp only: of_int_le_iff)
    then have "of_int (2 ^ 52) * 2 powi ky \<le> round_double y"
      unfolding ry by (simp add: mult_right_mono)
    moreover have "(of_int (2 ^ 52) :: rat) * 2 powi ky = 2 powi (exponent y)"
      by (simp add: ey power_int_diff)
    ultimately have b: "2 powi (exponent y) \<le> round_double y" by simp
    from a b show ?thesis by (rule order_trans)
  qed
qed

lemma round_double_mono:
  assumes "x \<le> y"
  shows "round_double x \<le> round_double y"
proof -
  consider "0 < x" | "x \<le> 0" "0 \<le> y" | "y < 0" by linarith
  then show ?thesis
  proof cases
    case 1
    then show ?thesis using assms by (rule round_double_mono_pos)
  next
    case 2
    have "round_double x \<le> 0"
      using round_double_nonneg [of "- x"] 2(1) by (simp add: round_double_minus)
    moreover have "0 \<le> round_double y" using 2(2) by (rule round_double_nonneg)
    ultimately show ?thesis by simp
  next
    case 3
    have "round_double (- y) \<le> round_double (- x)"
      using 3 assms by (intro round_double_mono_pos) simp_all
    then show ?thesis by (simp add: round_double_minus)
  qed
qed

lemma round_double_error: "\<bar>round_double x - x\<bar> \<le> quantum x / 2"
proof -
  have pos: "\<bar>round_double z - z\<bar> \<le> quantum z / 2" if z: "0 < z" for z
  proof -
    have "round_double z - z
        = (of_int (round_half_even (z / quantum z)) - z / quantum z) * quantum z"
      using z quantum_pos [of z] by (simp add: round_double_pos algebra_simps)
    then have "\<bar>round_double z - z\<bar>
        = \<bar>of_int (round_half_even (z / quantum z)) - z / quantum z\<bar> * quantum z"
      using quantum_pos [of z] by (simp add: abs_mult)
    also have "\<dots> \<le> (1 / 2) * quantum z"
      using rhe_err [of "z / quantum z"] quantum_pos [of z] by (intro mult_right_mono) simp_all
    finally show ?thesis by simp
  qed
  consider "0 < x" | "x = 0" | "x < 0" by linarith
  then show ?thesis
  proof cases
    case 1
    then show ?thesis by (rule pos)
  next
    case 2
    then show ?thesis using quantum_pos [of 0] by (simp add: round_double_zero)
  next
    case 3
    then have "\<bar>round_double (- x) - (- x)\<bar> \<le> quantum (- x) / 2" by (intro pos) simp
    then show ?thesis by (simp add: round_double_minus quantum_minus abs_minus_commute)
  qed
qed

lemma round_double_relative_error:
  assumes "2 powi (- 1022) \<le> \<bar>x\<bar>"
  shows "\<bar>round_double x - x\<bar> \<le> \<bar>x\<bar> * 2 powi (- 53)"
proof -
  have a: "0 < \<bar>x\<bar>" using assms by (rule less_le_trans [rotated]) simp
  have "(2::rat) powi (- 1022) < 2 powi (exponent \<bar>x\<bar> + 1)"
    using assms exponent_bounds(2) [OF a] by (rule le_less_trans)
  then have "- 1022 < exponent \<bar>x\<bar> + 1" by (rule powi2_less_imp)
  then have q: "quantum x = 2 powi (exponent \<bar>x\<bar> - 52)" by (simp add: quantum_def)
  have "\<bar>round_double x - x\<bar> \<le> quantum x / 2" by (rule round_double_error)
  also have "\<dots> = 2 powi (exponent \<bar>x\<bar>) * 2 powi (- 53)"
    unfolding q by (simp add: power_int_diff)
  also have "\<dots> \<le> \<bar>x\<bar> * 2 powi (- 53)"
    using exponent_bounds(1) [OF a] by (intro mult_right_mono) simp_all
  finally show ?thesis .
qed

lemma round_double_eval:
  assumes "0 < x" "2 powi e \<le> x" "x < 2 powi (e + 1)"
  shows "round_double x =
    of_int (round_half_even (x / 2 powi (max e (- 1022) - 52))) * 2 powi (max e (- 1022) - 52)"
proof -
  have "exponent x = e" using assms by (rule exponent_unique)
  then show ?thesis using assms(1) by (simp add: round_double_pos quantum_def)
qed

lemma rhe_eval:
  assumes "of_int n * 2 - 1 < r * 2" "r * 2 < of_int n * 2 + 1"
  shows "round_half_even r = n"
proof (cases "of_int n \<le> r")
  case True
  have "\<lfloor>r\<rfloor> = n" using True assms(2) by (intro floor_unique) simp_all
  then show ?thesis using assms(2) by (simp add: round_half_even_def Let_def)
next
  case False
  have "\<lfloor>r\<rfloor> = n - 1" using False assms(1) by (intro floor_unique) simp_all
  then show ?thesis using assms(1) by (simp add: round_half_even_def Let_def)
qed

lemma rhe_tie:
  assumes "r * 2 = of_int n * 2 + 1"
  shows "round_half_even r = (if even n then n else n + 1)"
proof -
  have "\<lfloor>r\<rfloor> = n" using assms by (intro floor_unique) simp_all
  moreover have "r - of_int n = 1 / 2" using assms by simp
  ultimately show ?thesis by (simp add: round_half_even_def Let_def)
qed

lemma round_double_cert:
  assumes "0 < x" "2 powi e \<le> x" "x < 2 powi (e + 1)"
    and "of_int n * 2 - 1 < x / 2 powi (max e (- 1022) - 52) * 2"
    and "x / 2 powi (max e (- 1022) - 52) * 2 < of_int n * 2 + 1"
  shows "round_double x = of_int n * 2 powi (max e (- 1022) - 52)"
  using assms by (simp add: round_double_eval [where e = e] rhe_eval [where n = n])

lemma round_double_cert_tie:
  assumes "0 < x" "2 powi e \<le> x" "x < 2 powi (e + 1)"
    and "x / 2 powi (max e (- 1022) - 52) * 2 = of_int n * 2 + 1"
  shows "round_double x = of_int (if even n then n else n + 1) * 2 powi (max e (- 1022) - 52)"
  using assms by (simp add: round_double_eval [where e = e] rhe_tie [where n = n])

section \<open>Helper facts about the scorer in double precision\<close>

lemma round_double_one: "round_double 1 = 1"
  by (simp add: round_double_cert [where e = 0 and n = 4503599627370496])

lemma double_weights:
  "round_double (2 / 5) = 3602879701896397 / 9007199254740992"
  "round_double (3 / 10) = 5404319552844595 / 18014398509481984"
  "round_double (3 / 20) = 5404319552844595 / 36028797018963968"
  "round_double (1 / 10) = 3602879701896397 / 36028797018963968"
  "round_double (1 / 20) = 3602879701896397 / 72057594037927936"
  by (simp add: round_double_cert [where e = "- 2" and n = 7205759403792794],
      simp add: round_double_cert [where e = "- 2" and n = 5404319552844595],
      simp add: round_double_cert [where e = "- 3" and n = 5404319552844595],
      simp add: round_double_cert [where e = "- 4" and n = 7205759403792794],
      simp add: round_double_cert [where e = "- 5" and n = 7205759403792794])

lemma double_weight_sums:
  "round_double (3602879701896397 / 9007199254740992) = 3602879701896397 / 9007199254740992"
  "round_double (5404319552844595 / 18014398509481984) = 5404319552844595 / 18014398509481984"
  "round_double (5404319552844595 / 36028797018963968) = 5404319552844595 / 36028797018963968"
  "round_double (3602879701896397 / 36028797018963968) = 3602879701896397 / 36028797018963968"
  "round_double (3602879701896397 / 72057594037927936) = 3602879701896397 / 72057594037927936"
  "round_double (12610078956637389 / 18014398509481984) = 3152519739159347 / 4503599627370496"
  "round_double (30624477466119371 / 36028797018963968) = 7656119366529843 / 9007199254740992"
  "round_double (34227357168015769 / 36028797018963968) = 4278419646001971 / 4503599627370496"
  "round_double (72057594037927933 / 72057594037927936) = 1"
  "round_double 1000 = 1000"
  by (simp add: round_double_cert [where e = "- 2" and n = 7205759403792794],
      simp add: round_double_cert [where e = "- 2" and n = 5404319552844595],
      simp add: round_double_cert [where e = "- 3" and n = 5404319552844595],
      simp add: round_double_cert [where e = "- 4" and n = 7205759403792794],
      simp add: round_double_cert [where e = "- 5" and n = 7205759403792794],
      simp add: round_double_cert_tie [where e = "- 1" and n = 6305039478318694],
      simp add: round_double_cert [where e = "- 1" and n = 7656119366529843],
      simp add: round_double_cert [where e = "- 1" and n = 8556839292003942],
      simp add: round_double_cert [where e = "- 1" and n = 9007199254740992],
      simp add: round_double_cert [where e = 9 and n = 8796093022208000])

lemma fmul_weight_bounds:
  assumes "0 \<le> a \<and> a \<le> 1" "round_double c = c" "0 \<le> c"
  shows "0 \<le> fmul a c \<and> fmul a c \<le> c"
proof
  show "0 \<le> fmul a c" unfolding fmul_def using assms by (intro round_double_nonneg) simp
  have "a * c \<le> c" using assms by (simp add: mult_left_le_one_le)
  then have "round_double (a * c) \<le> round_double c" by (rule round_double_mono)
  then show "fmul a c \<le> c" using assms(2) by (simp add: fmul_def)
qed

lemma fadd_bounds:
  assumes "0 \<le> a \<and> a \<le> A" "0 \<le> b \<and> b \<le> B" "round_double (A + B) = C"
  shows "0 \<le> fadd a b \<and> fadd a b \<le> C"
proof
  show "0 \<le> fadd a b" unfolding fadd_def using assms by (intro round_double_nonneg) simp
  have "a + b \<le> A + B" using assms by simp
  then have "round_double (a + b) \<le> round_double (A + B)" by (rule round_double_mono)
  then show "fadd a b \<le> C" using assms(3) by (simp add: fadd_def)
qed

lemma weighted_sum_double_bounds:
  assumes "0 \<le> a1 \<and> a1 \<le> 1" "0 \<le> a2 \<and> a2 \<le> 1" "0 \<le> a3 \<and> a3 \<le> 1"
    "0 \<le> a4 \<and> a4 \<le> 1" "0 \<le> a5 \<and> a5 \<le> 1"
  defines "ws \<equiv> fadd (fadd (fadd (fadd (fadd 0 (fmul a1 (round_double (40 / 100))))
      (fmul a2 (round_double (30 / 100)))) (fmul a3 (round_double (15 / 100))))
      (fmul a4 (round_double (10 / 100)))) (fmul a5 (round_double (5 / 100)))"
  shows "0 \<le> ws" and "0 \<le> fmul ws 1000" and "fmul ws 1000 \<le> 1000"
proof -
  note w = double_weight_sums
  have e: "round_double (40 / 100) = 3602879701896397 / 9007199254740992"
    "round_double (30 / 100) = 5404319552844595 / 18014398509481984"
    "round_double (15 / 100) = 5404319552844595 / 36028797018963968"
    "round_double (10 / 100) = 3602879701896397 / 36028797018963968"
    "round_double (5 / 100) = 3602879701896397 / 72057594037927936"
    by (simp_all add: double_weights)
  note t1 = fmul_weight_bounds [OF assms(1) w(1)]
  note t2 = fmul_weight_bounds [OF assms(2) w(2)]
  note t3 = fmul_weight_bounds [OF assms(3) w(3)]
  note t4 = fmul_weight_bounds [OF assms(4) w(4)]
  note t5 = fmul_weight_bounds [OF assms(5) w(5)]
  have z: "(0::rat) \<le> 0 \<and> (0::rat) \<le> 0" by simp
  have s1': "round_double (0 + 3602879701896397 / 9007199254740992)
      = 3602879701896397 / 9007199254740992"
    using w(1) by simp
  have s2': "round_double (3602879701896397 / 9007199254740992
      + 5404319552844595 / 18014398509481984) = 3152519739159347 / 4503599627370496"
    using w(6) by simp
  have s3': "round_double (3152519739159347 / 4503599627370496
      + 5404319552844595 / 36028797018963968) = 7656119366529843 / 9007199254740992"
    using w(7) by simp
  have s4': "round_double (7656119366529843 / 9007199254740992
      + 3602879701896397 / 36028797018963968) = 4278419646001971 / 4503599627370496"
    using w(8) by simp
  have s5': "round_double (4278419646001971 / 4503599627370496
      + 3602879701896397 / 72057594037927936) = 1"
    using w(9) by simp
  note s1 = fadd_bounds [OF z t1 s1']
  note s2 = fadd_bounds [OF s1 t2 s2']
  note s3 = fadd_bounds [OF s2 t3 s3']
  note s4 = fadd_bounds [OF s3 t4 s4']
  note s5 = fadd_bounds [OF s4 t5 s5']
  have ab: "0 \<le> ws \<and> ws \<le> 1" unfolding ws_def e by (rule s5) simp_all
  then show a: "0 \<le> ws" by simp
  from ab have b: "ws \<le> 1" by simp
  show "0 \<le> fmul ws 1000" unfolding fmul_def using a by (intro round_double_nonneg) simp
  have "ws * 1000 \<le> 1000" using b by simp
  then have "round_double (ws * 1000) \<le> round_double 1000" by (rule round_double_mono)
  then show "fmul ws 1000 \<le> 1000" by (simp add: fmul_def w)
qed


lemma fit_transform_double_length:
  "length (MinMaxScaler_fit_transform_double col) = length col"
  by (simp add: MinMaxScaler_fit_transform_double_def Let_def)

lemma fit_transform_double_range:
  assumes "i < length col"
  shows "0 \<le> MinMaxScaler_fit_transform_double col ! i
    \<and> MinMaxScaler_fit_transform_double col ! i \<le> 1"
proof (cases "Min (set col) = Max (set col)")
  case True
  with assms show ?thesis by (simp add: MinMaxScaler_fit_transform_double_def Let_def)
next
  case False
  define n where "n = fsub (col ! i) (Min (set col))"
  define d where "d = fsub (Max (set col)) (Min (set col))"
  have mem: "col ! i \<in> set col" using assms by simp
  have lo: "Min (set col) \<le> col ! i" using mem by simp
  have hi: "col ! i \<le> Max (set col)" using mem by simp
  have n0: "0 \<le> n" unfolding n_def fsub_def using lo by (intro round_double_nonneg) simp
  have nd: "n \<le> d" unfolding n_def d_def fsub_def using hi by (intro round_double_mono) simp
  have q0: "0 \<le> n / d" using n0 nd by simp
  have q1: "n / d \<le> 1"
  proof (cases "d = 0")
    case True
    then show ?thesis by simp
  next
    case False
    with n0 nd have "0 < d" by simp
    then show ?thesis using nd by simp
  qed
  have "0 \<le> fdiv n d" unfolding fdiv_def using q0 by (rule round_double_nonneg)
  moreover have "fdiv n d \<le> 1"
    unfolding fdiv_def using round_double_mono [OF q1] by (simp add: round_double_one)
  ultimately show ?thesis
    using assms False by (simp add: MinMaxScaler_fit_transform_double_def Let_def n_def d_def)
qed

lemma series_times_double_nth:
  "i < length xs \<Longrightarrow> series_times_double xs c ! i = fmul (xs ! i) c"
  by (simp add: series_times_double_def)

lemma series_times_double_length: "length (series_times_double xs c) = length xs"
  by (simp add: series_times_double_def)

lemma series_plus_double_nth:
  "i < length xs \<Longrightarrow> i < length ys \<Longrightarrow>
     series_plus_double xs ys ! i = fadd (xs ! i) (ys ! i)"
  by (simp add: series_plus_double_def)

lemma series_plus_double_length:
  "length (series_plus_double xs ys) = min (length xs) (length ys)"
  by (simp add: series_plus_double_def)

lemma final_score_double_length:
  assumes "length (n_liquidation_count N) = n" "length (n_health_factor_proxy N) = n"
    "length (n_total_liquidated_usd N) = n" "length (n_distinct_assets_borrowed N) = n"
    "length (n_wallet_age_days N) = n"
  shows "length (final_score_double N) = n"
  using assms
  by (simp add: final_score_double_def series_plus_double_length series_times_double_length)

lemma final_score_double_nth:
  assumes "length (n_liquidation_count N) = n" "length (n_health_factor_proxy N) = n"
    "length (n_total_liquidated_usd N) = n" "length (n_distinct_assets_borrowed N) = n"
    "length (n_wallet_age_days N) = n" "i < n"
  shows "final_score_double N ! i =
     fadd (fadd (fadd (fadd (fadd 0
       (fmul (n_liquidation_count N ! i) (round_double (40 / 100))))
       (fmul (n_health_factor_proxy N ! i) (round_double (30 / 100))))
       (fmul (n_total_liquidated_usd N ! i) (round_double (15 / 100))))
       (fmul (n_distinct_assets_borrowed N ! i) (round_double (10 / 100))))
       (fmul (n_wallet_age_days N ! i) (round_double (5 / 100)))"
  using assms
  by (simp add: final_score_double_def series_plus_double_nth series_plus_double_length
      series_times_double_nth series_times_double_length)

lemma normalized_double_lengths:
  fixes features_df
  defines "N \<equiv> invert_wallet_age_double (normalize_double (feature_columns_double features_df))"
  shows "length (n_liquidation_count N) = length features_df"
    and "length (n_health_factor_proxy N) = length features_df"
    and "length (n_total_liquidated_usd N) = length features_df"
    and "length (n_distinct_assets_borrowed N) = length features_df"
    and "length (n_wallet_age_days N) = length features_df"
  by (simp_all add: N_def invert_wallet_age_double_def normalize_double_def
      feature_columns_double_def fit_transform_double_length)

lemma normalized_double_ranges:
  fixes features_df
  defines "N \<equiv> invert_wallet_age_double (normalize_double (feature_columns_double features_df))"
  assumes "i < length features_df"
  shows "0 \<le> n_liquidation_count N ! i \<and> n_liquidation_count N ! i \<le> 1"
    and "0 \<le> n_health_factor_proxy N ! i \<and> n_health_factor_proxy N ! i \<le> 1"
    and "0 \<le> n_total_liquidated_usd N ! i \<and> n_total_liquidated_usd N ! i \<le> 1"
    and "0 \<le> n_distinct_assets_borrowed N ! i \<and> n_distinct_assets_borrowed N ! i \<le> 1"
    and "0 \<le> n_wallet_age_days N ! i \<and> n_wallet_age_days N ! i \<le> 1"
proof -
  have r: "\<And>col. length col = length features_df \<Longrightarrow>
      0 \<le> MinMaxScaler_fit_transform_double col ! i
      \<and> MinMaxScaler_fit_transform_double col ! i \<le> 1"
    using assms(2) by (simp add: fit_transform_double_range)
  show "0 \<le> n_liquidation_count N ! i \<and> n_liquidation_count N ! i \<le> 1"
    unfolding N_def invert_wallet_age_double_def normalize_double_def feature_columns_double_def
    using r by simp
  show "0 \<le> n_health_factor_proxy N ! i \<and> n_health_factor_proxy N ! i \<le> 1"
    unfolding N_def invert_wallet_age_double_def normalize_double_def feature_columns_double_def
    using r by simp
  show "0 \<le> n_total_liquidated_usd N ! i \<and> n_total_liquidated_usd N ! i \<le> 1"
    unfolding N_def invert_wallet_age_double_def normalize_double_def feature_columns_double_def
    using r by simp
  show "0 \<le> n_distinct_assets_borrowed N ! i \<and> n_distinct_assets_borrowed N ! i \<le> 1"
    unfolding N_def invert_wallet_age_double_def normalize_double_def feature_columns_double_def
    using r by simp
  define a where "a = MinMaxScaler_fit_transform_double
      (map (\<lambda>r. round_double (of_int (wallet_age_days (snd r)))) features_df) ! i"
  have a: "0 \<le> a \<and> a \<le> 1" unfolding a_def using r by simp
  have "0 \<le> fsub 1 a" unfolding fsub_def using a by (intro round_double_nonneg) simp
  moreover have "fsub 1 a \<le> 1"
  proof -
    have "1 - a \<le> 1" using a by simp
    then have "round_double (1 - a) \<le> round_double 1" by (rule round_double_mono)
    then show ?thesis by (simp add: fsub_def round_double_one)
  qed
  ultimately show "0 \<le> n_wallet_age_days N ! i \<and> n_wallet_age_days N ! i \<le> 1"
    unfolding N_def invert_wallet_age_double_def normalize_double_def feature_columns_double_def
    using assms(2) by (simp add: fit_transform_double_length a_def)
qed

lemma scorer_double_length: "length (scorer_double features_df) = length features_df"
  using final_score_double_length [OF normalized_double_lengths, of features_df]
  by (simp add: scorer_double_def Let_def series_times_double_length)

lemma scorer_double_wallets: "map fst (scorer_double features_df) = map fst features_df"
  using final_score_double_length [OF normalized_double_lengths, of features_df]
  by (simp add: scorer_double_def Let_def series_times_double_length)

lemma scorer_double_nth:
  assumes "i < length features_df"
  shows "snd (scorer_double features_df ! i) =
     astype_int (fmul (final_score_double
       (invert_wallet_age_double (normalize_double (feature_columns_double features_df))) ! i)
       1000)"
  using assms final_score_double_length [OF normalized_double_lengths, of features_df]
  by (simp add: scorer_double_def Let_def series_times_double_length series_times_double_nth)

lemma rounding_example_double:
  "scorer_double rounding_features_df = [(''0x0000'', 50), (''0xaaaa'', 394), (''0xbbbb'', 400)]"
proof -
  have r0: "round_double (4722366482869645 / 4722366482869645213696) = 4722366482869645 / 4722366482869645213696"
    by (simp add: round_double_cert [where e = "- 20" and n = 4722366482869645])
  have r1: "round_double (1 / 1000000) = 4722366482869645 / 4722366482869645213696"
    by (simp add: round_double_cert [where e = "- 20" and n = 4722366482869645])
  have r2: "round_double (29206669829258407752355848084521 / 649037107316853453566312041152512) = 6485183463413515 / 144115188075855872"
    by (simp add: round_double_cert [where e = "- 5" and n = 6485183463413515])
  have r3: "round_double (1 / 20) = 3602879701896397 / 72057594037927936"
    by (simp add: round_double_cert [where e = "- 5" and n = 7205759403792794])
  have r4: "round_double (3602879701896397 / 72057594037927936) = 3602879701896397 / 72057594037927936"
    by (simp add: round_double_cert [where e = "- 5" and n = 7205759403792794])
  have r5: "round_double (1 / 10) = 3602879701896397 / 36028797018963968"
    by (simp add: round_double_cert [where e = "- 4" and n = 7205759403792794])
  have r6: "round_double (3602879701896397 / 36028797018963968) = 3602879701896397 / 36028797018963968"
    by (simp add: round_double_cert [where e = "- 4" and n = 7205759403792794])
  have r7: "round_double (3 / 20) = 5404319552844595 / 36028797018963968"
    by (simp add: round_double_cert [where e = "- 3" and n = 5404319552844595])
  have r8: "round_double (5404319552844595 / 18014398509481984) = 5404319552844595 / 18014398509481984"
    by (simp add: round_double_cert [where e = "- 2" and n = 5404319552844595])
  have r9: "round_double (3 / 10) = 5404319552844595 / 18014398509481984"
    by (simp add: round_double_cert [where e = "- 2" and n = 5404319552844595])
  have r10: "round_double (25220157913274777 / 72057594037927936) = 3152519739159347 / 9007199254740992"
    by (simp add: round_double_cert [where e = "- 2" and n = 6305039478318694])
  have r11: "round_double (56925499289963067 / 144115188075855872) = 7115687411245383 / 18014398509481984"
    by (simp add: round_double_cert [where e = "- 2" and n = 7115687411245383])
  have r12: "round_double (3602879698293517 / 9007199254740992) = 3602879698293517 / 9007199254740992"
    by (simp add: round_double_cert [where e = "- 2" and n = 7205759396587034])
  have r13: "round_double (3518437208883200 / 8796093031004093) = 3602879698293517 / 9007199254740992"
    by (simp add: round_double_cert [where e = "- 2" and n = 7205759396587034])
  have r14: "round_double (14411518807585587 / 36028797018963968) = 3602879701896397 / 9007199254740992"
    by (simp add: round_double_cert_tie [where e = "- 2" and n = 7205759403792793])
  have r15: "round_double (2 / 5) = 3602879701896397 / 9007199254740992"
    by (simp add: round_double_cert [where e = "- 2" and n = 7205759403792794])
  have r16: "round_double (3602879701896397 / 9007199254740992) = 3602879701896397 / 9007199254740992"
    by (simp add: round_double_cert [where e = "- 2" and n = 7205759403792794])
  have r17: "round_double (1 / 2) = 1 / 2"
    by (simp add: round_double_cert [where e = "- 1" and n = 4503599627370496])
  have r18: "round_double (32425917317067571 / 36028797018963968) = 8106479329266893 / 9007199254740992"
    by (simp add: round_double_cert [where e = "- 1" and n = 8106479329266893])
  have r19: "round_double (1) = 1"
    by (simp add: round_double_cert [where e = 0 and n = 4503599627370496])
  have r20: "round_double (2) = 2"
    by (simp add: round_double_cert [where e = 1 and n = 4503599627370496])
  have r21: "round_double (10) = 10"
    by (simp add: round_double_cert [where e = 3 and n = 5629499534213120])
  have r22: "round_double (450359962737049625 / 9007199254740992) = 50"
    by (simp add: round_double_cert [where e = 5 and n = 7036874417766400])
  have r23: "round_double (889460926405672875 / 2251799813685248) = 6948913487544319 / 17592186044416"
    by (simp add: round_double_cert [where e = 8 and n = 6948913487544319])
  have r24: "round_double (450359962737049625 / 1125899906842624) = 400"
    by (simp add: round_double_cert [where e = 8 and n = 7036874417766400])
  have r25: "round_double (4722366487592011696565645 / 4722366482869645213696) = 8796093031004093 / 8796093022208"
    by (simp add: round_double_cert [where e = 9 and n = 8796093031004093])
  have f1: "\<lfloor>6948913487544319 / 17592186044416 :: rat\<rfloor> = 394"
    by (simp add: floor_eq_iff)
  show ?thesis
    by (simp add: scorer_double_def final_score_double_def series_plus_double_def
        series_times_double_def invert_wallet_age_double_def normalize_double_def
        feature_columns_double_def MinMaxScaler_fit_transform_double_def
        health_factor_proxy_double_def rounding_features_df_def astype_int_def
        fadd_def fsub_def fmul_def fdiv_def round_double_zero
        r0 r1 r2 r3 r4 r5 r6 r7 r8 r9 r10 r11 r12 r13 r14 r15 r16 r17 r18 r19 r20 r21 r22 r23 r24 r25 f1)
qed

lemma rounding_example_exact:
  "final_score (invert_wallet_age (normalize (feature_columns rounding_features_df)))
     = [1 / 20, 79 / 200, 2 / 5]"
  by (simp add: final_score_def series_plus_def series_times_def invert_wallet_age_def
      normalize_def feature_columns_def MinMaxScaler_fit_transform_def health_factor_proxy_def
      rounding_features_df_def)


lemma round_double_rel_bounds:
  assumes "2 powi (- 1022) \<le> x"
  shows "x * (1 - 2 powi (- 53)) \<le> round_double x"
    and "round_double x \<le> x * (1 + 2 powi (- 53))"
proof -
  define u :: rat where "u = 2 powi (- 53)"
  have x: "0 < x" using assms by (rule less_le_trans [rotated]) simp
  then have a: "\<bar>x\<bar> = x" by simp
  have "\<bar>round_double x - x\<bar> \<le> x * u"
    unfolding u_def using round_double_relative_error [of x] assms a by simp
  then have "round_double x - x \<le> x * u" and "- (round_double x - x) \<le> x * u"
    by (simp_all only: abs_le_iff)
  then have "x * (1 - u) \<le> round_double x" and "round_double x \<le> x * (1 + u)"
    by (simp_all add: algebra_simps)
  then show "x * (1 - 2 powi (- 53)) \<le> round_double x"
    and "round_double x \<le> x * (1 + 2 powi (- 53))"
    unfolding u_def by blast+
qed

lemma frac_split: "(a * x * x) / (b * y * y) = a / b * (x * x / (y * y :: rat))"
  by simp

lemma proxy_double_zero: "health_factor_proxy_double (total_borrowed_double 0) 0 = 0"
  by (simp add: health_factor_proxy_double_def total_borrowed_double_def fmul_def fdiv_def
      round_double_zero)

lemma proxy_double_error:
  assumes s: "2 powi (- 64) \<le> s"
  defines "E \<equiv> (4 / 10) * s / (s + 1 / 1000000)"
    and "h \<equiv> health_factor_proxy_double (total_borrowed_double s) s"
  shows "E * (1 - 2 powi (- 50)) \<le> h" and "h \<le> E * (1 + 2 powi (- 50))" and "0 < E"
    and "E < 4 / 10"
proof -
  define A :: rat where "A = 1 + 2 powi (- 53)"
  define B :: rat where "B = 1 - 2 powi (- 53)"
  define c where "c = round_double (4 / 10)"
  define e where "e = round_double (1 / 1000000)"
  define n where "n = round_double (s * c)"
  define d where "d = round_double (s + e)"
  have c_val: "c = 3602879701896397 / 9007199254740992"
    unfolding c_def by (simp add: round_double_cert [where e = "- 2" and n = 7205759403792794])
  have e_val: "e = 4722366482869645 / 4722366482869645213696"
    unfolding e_def by (simp add: round_double_cert [where e = "- 20" and n = 4722366482869645])
  have spos: "0 < s" using s by (rule less_le_trans [rotated]) simp
  have A1: "1 \<le> A" and B0: "0 < B" and B1: "B \<le> 1" by (simp_all add: A_def B_def)
  have A0: "0 < A" using A1 by simp
  have cb: "(4 / 10) * B \<le> c" "c \<le> (4 / 10) * A" by (simp_all add: c_val A_def B_def)
  have eb: "(1 / 1000000) * B \<le> e" "e \<le> (1 / 1000000) * A"
    by (simp_all add: e_val A_def B_def)
  have h_eq: "h = round_double (n / d)"
    by (simp add: h_def health_factor_proxy_double_def total_borrowed_double_def fmul_def
        fdiv_def fadd_def n_def d_def c_def e_def)
  have Epos: "0 < E" using spos by (simp add: E_def)
  show "0 < E" by (rule Epos)
  show "E < 4 / 10" using spos by (simp add: E_def field_simps)
  have normal_sc: "2 powi (- 1022) \<le> s * c"
  proof -
    have "(2::rat) powi (- 1022) \<le> 2 powi (- 66)" by (rule power_int_increasing) simp_all
    also have "\<dots> = 2 powi (- 64) * (1 / 4)" by simp
    also have "\<dots> \<le> s * c" using s by (intro mult_mono) (simp_all add: c_val)
    finally show ?thesis .
  qed
  have nb: "s * c * B \<le> n" "n \<le> s * c * A"
    using round_double_rel_bounds [OF normal_sc] by (simp_all add: n_def A_def B_def)
  have n_lo: "(4 / 10) * s * B * B \<le> n"
  proof -
    have "(4 / 10) * B * (s * B) \<le> c * (s * B)"
      using cb(1) spos B0 by (intro mult_right_mono) simp_all
    then show ?thesis using nb(1) by (simp add: mult_ac)
  qed
  have n_hi: "n \<le> (4 / 10) * s * A * A"
  proof -
    have "c * (s * A) \<le> (4 / 10) * A * (s * A)"
      using cb(2) spos A0 by (intro mult_right_mono) simp_all
    then show ?thesis using nb(2) by (simp add: mult_ac)
  qed
  have normal_se: "2 powi (- 1022) \<le> s + e"
  proof -
    have "(2::rat) powi (- 1022) \<le> 2 powi (- 20)" by (rule power_int_increasing) simp_all
    also have "\<dots> \<le> e" by (simp add: e_val)
    also have "\<dots> \<le> s + e" using spos by simp
    finally show ?thesis .
  qed
  have db: "(s + e) * B \<le> d" "d \<le> (s + e) * A"
    using round_double_rel_bounds [OF normal_se] by (simp_all add: d_def A_def B_def)
  have se_lo: "(s + 1 / 1000000) * B \<le> s + e"
  proof -
    have "s * B \<le> s" using spos B1 by simp
    then show ?thesis using eb(1) by (simp add: algebra_simps)
  qed
  have se_hi: "s + e \<le> (s + 1 / 1000000) * A"
  proof -
    have "s \<le> s * A" using spos A1 by simp
    then show ?thesis using eb(2) by (simp add: algebra_simps)
  qed
  have d_lo: "(s + 1 / 1000000) * B * B \<le> d"
  proof -
    have "(s + 1 / 1000000) * B * B \<le> (s + e) * B"
      using se_lo B0 by (intro mult_right_mono) simp_all
    then show ?thesis using db(1) by simp
  qed
  have d_hi: "d \<le> (s + 1 / 1000000) * A * A"
  proof -
    have "(s + e) * A \<le> (s + 1 / 1000000) * A * A"
      using se_hi A0 by (intro mult_right_mono) simp_all
    then show ?thesis using db(2) by simp
  qed
  have den: "0 < (s + 1 / 1000000) * B * B" using spos B0 by simp
  have dpos: "0 < d" using den d_lo by simp
  have npos: "0 \<le> n"
  proof -
    have "0 \<le> (4 / 10) * s * B * B" using spos B0 by simp
    then show ?thesis using n_lo by (rule order_trans)
  qed
  have q_hi: "n / d \<le> E * (A * A / (B * B))"
  proof -
    have "0 \<le> (4 / 10) * s * A * A" using spos A0 by simp
    then have "n / d \<le> ((4 / 10) * s * A * A) / ((s + 1 / 1000000) * B * B)"
      using n_hi den d_lo by (rule frac_le)
    also have "\<dots> = E * (A * A / (B * B))" unfolding E_def by (rule frac_split)
    finally show ?thesis .
  qed
  have q_lo: "E * (B * B / (A * A)) \<le> n / d"
  proof -
    have "((4 / 10) * s * B * B) / ((s + 1 / 1000000) * A * A) \<le> n / d"
      using npos n_lo dpos d_hi by (rule frac_le)
    moreover have "((4 / 10) * s * B * B) / ((s + 1 / 1000000) * A * A)
        = E * (B * B / (A * A))" unfolding E_def by (rule frac_split)
    ultimately show ?thesis by simp
  qed
  have E_lo: "2 powi (- 50) \<le> E"
  proof -
    have "(2 powi (- 50) * (1 / 1000000) :: rat) \<le> (4 / 10 - 2 powi (- 50)) * 2 powi (- 64)"
      by simp
    also have "\<dots> \<le> (4 / 10 - 2 powi (- 50)) * s" using s by (intro mult_left_mono) simp_all
    finally have "2 powi (- 50) * (s + 1 / 1000000) \<le> (4 / 10) * s"
      by (simp add: algebra_simps)
    then show ?thesis using spos by (simp add: E_def pos_le_divide_eq)
  qed
  have normal_q: "2 powi (- 1022) \<le> n / d"
  proof -
    have "(2::rat) powi (- 1022) \<le> 2 powi (- 51)" by (rule power_int_increasing) simp_all
    also have "\<dots> \<le> 2 powi (- 50) * (B * B / (A * A))" by (simp add: A_def B_def)
    also have "\<dots> \<le> E * (B * B / (A * A))"
      using E_lo A0 B0 by (intro mult_right_mono) simp_all
    also have "\<dots> \<le> n / d" by (rule q_lo)
    finally show ?thesis .
  qed
  have hb: "n / d * B \<le> h" "h \<le> n / d * A"
    using round_double_rel_bounds [OF normal_q] by (simp_all add: h_eq A_def B_def)
  have "h \<le> n / d * A" by (rule hb(2))
  also have "\<dots> \<le> E * (A * A / (B * B)) * A"
    using q_hi A0 by (intro mult_right_mono) simp_all
  also have "\<dots> = E * (A * A / (B * B) * A)" by simp
  also have "\<dots> \<le> E * (1 + 2 powi (- 50))"
    using Epos by (intro mult_left_mono) (simp_all add: A_def B_def)
  finally show "h \<le> E * (1 + 2 powi (- 50))" .
  have "E * (1 - 2 powi (- 50)) \<le> E * (B * B / (A * A) * B)"
    using Epos by (intro mult_left_mono) (simp_all add: A_def B_def)
  also have "\<dots> = E * (B * B / (A * A)) * B" by simp
  also have "\<dots> \<le> n / d * B" using q_lo B0 by (intro mult_right_mono) simp_all
  also have "\<dots> \<le> h" by (rule hb(1))
  finally show "E * (1 - 2 powi (- 50)) \<le> h" .
qed

section \<open>Properties that rounding decides\<close>

text \<open>
  C2. For every feature table with supplied totals that are not negative (token amounts are
  unsigned) and every row \<open>i\<close> of it, the score is an integer between
  \<open>0\<close> and \<open>1000\<close>: it is the truncation of the double product of \<open>1000\<close> and the
  weighted sum of the five normalized features of that row, computed in doubles with the
  weights \<open>0.40, 0.30, 0.15, 0.10, 0.05\<close>, and is the floor of that product whenever the
  product is not negative.
\<close>

theorem score_is_truncated_double_product:
  "\<forall>r \<in> set features_df. 0 \<le> total_supplied_usd (snd r) \<Longrightarrow>
   i < length features_df \<Longrightarrow>
     (let N = invert_wallet_age_double (normalize_double (feature_columns_double features_df));
          weighted_sum =
            fadd (fadd (fadd (fadd (fadd 0
              (fmul (n_liquidation_count N ! i) (round_double (40 / 100))))
              (fmul (n_health_factor_proxy N ! i) (round_double (30 / 100))))
              (fmul (n_total_liquidated_usd N ! i) (round_double (15 / 100))))
              (fmul (n_distinct_assets_borrowed N ! i) (round_double (10 / 100))))
              (fmul (n_wallet_age_days N ! i) (round_double (5 / 100)));
          score = snd (scorer_double features_df ! i)
      in fst (scorer_double features_df ! i) = fst (features_df ! i)
         \<and> score = astype_int (fmul weighted_sum 1000)
         \<and> (0 \<le> fmul weighted_sum 1000 \<longrightarrow> score = \<lfloor>fmul weighted_sum 1000\<rfloor>)
         \<and> 0 \<le> score \<and> score \<le> 1000)"
proof -
  assume i: "i < length features_df"
  define N where
    "N = invert_wallet_age_double (normalize_double (feature_columns_double features_df))"
  define ws where "ws =
            fadd (fadd (fadd (fadd (fadd 0
              (fmul (n_liquidation_count N ! i) (round_double (40 / 100))))
              (fmul (n_health_factor_proxy N ! i) (round_double (30 / 100))))
              (fmul (n_total_liquidated_usd N ! i) (round_double (15 / 100))))
              (fmul (n_distinct_assets_borrowed N ! i) (round_double (10 / 100))))
              (fmul (n_wallet_age_days N ! i) (round_double (5 / 100)))"
  have fs: "final_score_double N ! i = ws"
    unfolding ws_def N_def by (rule final_score_double_nth [OF normalized_double_lengths i])
  have sc: "snd (scorer_double features_df ! i) = astype_int (fmul ws 1000)"
    using scorer_double_nth [OF i] fs by (simp add: N_def)
  note r = normalized_double_ranges [OF i, folded N_def]
  have lo: "0 \<le> fmul ws 1000" and hi: "fmul ws 1000 \<le> 1000"
    unfolding ws_def by (rule weighted_sum_double_bounds [OF r])+
  have fl: "astype_int (fmul ws 1000) = \<lfloor>fmul ws 1000\<rfloor>"
    using lo by (simp add: astype_int_def)
  have "\<lfloor>fmul ws 1000\<rfloor> \<le> \<lfloor>1000 :: rat\<rfloor>" using hi by (rule floor_mono)
  then have up: "astype_int (fmul ws 1000) \<le> 1000" using fl by simp
  have nn: "0 \<le> astype_int (fmul ws 1000)" using fl lo by simp
  have w: "fst (scorer_double features_df ! i) = fst (features_df ! i)"
    using scorer_double_wallets [of features_df] scorer_double_length [of features_df] i
    by (metis nth_map)
  show ?thesis
    unfolding Let_def N_def [symmetric] ws_def [symmetric] sc
    using w fl up nn by simp
qed

text \<open>The second row of the rounding example, scored 394.\<close>

theorem score_is_truncated_double_product_witness:
  "map (\<lambda>r. total_supplied_usd (snd r)) rounding_features_df = [0, 1000, 1000]
   \<and> (1::nat) < length rounding_features_df
   \<and> fst (scorer_double rounding_features_df ! 1) = ''0xaaaa''
   \<and> snd (scorer_double rounding_features_df ! 1) = 394
   \<and> 0 \<le> snd (scorer_double rounding_features_df ! 1)
   \<and> snd (scorer_double rounding_features_df ! 1) \<le> 1000"
proof -
  have i: "(1::nat) < length rounding_features_df"
    by (simp add: rounding_features_df_def)
  have w: "fst (rounding_features_df ! 1) = ''0xaaaa''"
    by (simp add: rounding_features_df_def)
  have s: "snd (scorer_double rounding_features_df ! 1) = 394"
    by (simp add: rounding_example_double)
  have p: "\<forall>r \<in> set rounding_features_df. 0 \<le> total_supplied_usd (snd r)"
    by (simp add: rounding_features_df_def)
  have q: "map (\<lambda>r. total_supplied_usd (snd r)) rounding_features_df = [0, 1000, 1000]"
    by (simp add: rounding_features_df_def)
  show ?thesis
    using score_is_truncated_double_product [OF p i] i w s q
    unfolding Let_def by simp
qed

text \<open>
  The same row has the exact weighted sum \<open>0.395\<close>, whose thousandfold floors to 395; the
  doubles give \<open>394.99999999999994\<close> and the score 394.
\<close>

theorem score_differs_from_exact_floor:
  "\<lfloor>final_score (invert_wallet_age (normalize (feature_columns rounding_features_df))) ! 1
      * 1000\<rfloor> = 395
   \<and> snd (scorer_double rounding_features_df ! 1) = 394"
  by (simp add: rounding_example_exact rounding_example_double)

text \<open>
  C10. For a supplied total \<open>s\<close> that is \<open>0\<close> or at least \<open>2 powi (- 64)\<close>, the proxy the
  code computes in doubles from \<open>s\<close> and \<open>0.4 * s\<close> is within the relative distance
  \<open>2 powi (- 50)\<close> of \<open>0.4 * s / (s + 1e-6)\<close>; it lies in \<open>[0, 0.4 * (1 + 2 powi (- 50)))\<close>
  and is \<open>0\<close> exactly when \<open>s\<close> is.
\<close>

theorem proxy_double_close_to_exact:
  "s = 0 \<or> 2 powi (- 64) \<le> s \<Longrightarrow>
     (let h = health_factor_proxy_double (total_borrowed_double s) s;
          E = (4 / 10) * s / (s + 1 / 1000000)
      in \<bar>h - E\<bar> \<le> E * 2 powi (- 50)
         \<and> 0 \<le> h
         \<and> h < (4 / 10) * (1 + 2 powi (- 50))
         \<and> (h = 0 \<longleftrightarrow> s = 0))"
proof -
  assume "s = 0 \<or> 2 powi (- 64) \<le> s"
  then show ?thesis
  proof
    assume "s = 0"
    then show ?thesis by (simp add: proxy_double_zero)
  next
    assume s: "2 powi (- 64) \<le> s"
    define h where "h = health_factor_proxy_double (total_borrowed_double s) s"
    define E where "E = (4 / 10) * s / (s + 1 / 1000000)"
    define t :: rat where "t = 2 powi (- 50)"
    note b = proxy_double_error [OF s, folded h_def E_def t_def]
    have t: "0 < t" "t < 1" by (simp_all add: t_def)
    have spos: "0 < s" using s by (rule less_le_trans [rotated]) simp
    have lo: "E - E * t \<le> h" using b(1) by (simp add: algebra_simps)
    have hi: "h \<le> E + E * t" using b(2) by (simp add: algebra_simps)
    have "h - E \<le> E * t" and "- (h - E) \<le> E * t" using lo hi by simp_all
    then have a: "\<bar>h - E\<bar> \<le> E * 2 powi (- 50)"
      unfolding t_def by (simp only: abs_le_iff)
    have "0 < E * (1 - t)" using b(3) t by simp
    then have hpos: "0 < h" using b(1) by (rule less_le_trans)
    have "E * (1 + t) < (4 / 10) * (1 + t)"
      using b(4) t by (intro mult_strict_right_mono) simp_all
    with b(2) have "h < (4 / 10) * (1 + t)" by (rule le_less_trans)
    then have up: "h < (4 / 10) * (1 + 2 powi (- 50))" unfolding t_def .
    show ?thesis
      unfolding Let_def h_def [symmetric] E_def [symmetric]
      using a hpos up spos by simp
  qed
qed

text \<open>A supplied total of 1000.\<close>

theorem proxy_double_close_to_exact_witness:
  "2 powi (- 64) \<le> (1000 :: rat)
   \<and> 0 \<le> health_factor_proxy_double (total_borrowed_double 1000) 1000
   \<and> health_factor_proxy_double (total_borrowed_double 1000) 1000
       < (4 / 10) * (1 + 2 powi (- 50))
   \<and> health_factor_proxy_double (total_borrowed_double 1000) 1000 \<noteq> 0"
proof -
  have s: "2 powi (- 64) \<le> (1000 :: rat)" by simp
  then have "(1000 :: rat) = 0 \<or> 2 powi (- 64) \<le> (1000 :: rat)" by blast
  from proxy_double_close_to_exact [OF this] s show ?thesis
    unfolding Let_def by simp
qed

text \<open>
  A supplied total of \<open>1.8e10\<close> gives the double \<open>0.4\<close> itself, which is not below
  \<open>4 / 10\<close>; the totals 67774 and 67775 give the same proxy.
\<close>

theorem proxy_double_reaches_two_fifths:
  "health_factor_proxy_double (total_borrowed_double 18000000000) 18000000000
     = round_double (4 / 10)
   \<and> \<not> health_factor_proxy_double (total_borrowed_double 18000000000) 18000000000 < 4 / 10
   \<and> health_factor_proxy_double (total_borrowed_double 67774) 67774
     = health_factor_proxy_double (total_borrowed_double 67775) 67775"
proof -
  have h0: "round_double (1 / 1000000) = 4722366482869645 / 4722366482869645213696"
    by (simp add: round_double_cert [where e = "- 20" and n = 4722366482869645])
  have h1: "round_double (7451830106089063 / 18629575265497532) = 7205759403686475 / 18014398509481984"
    by (simp add: round_double_cert [where e = "- 2" and n = 7205759403686475])
  have h2: "round_double (1862985014312960 / 4657462535851119) = 7205759403686475 / 18014398509481984"
    by (simp add: round_double_cert [where e = "- 2" and n = 7205759403686475])
  have h3: "round_double (2 / 5) = 3602879701896397 / 9007199254740992"
    by (simp add: round_double_cert [where e = "- 2" and n = 7205759403792794])
  have h4: "round_double (122090784458163205139 / 4503599627370496) = 7451830106089063 / 274877906944"
    by (simp add: round_double_cert [where e = 14 and n = 7451830106089063])
  have h5: "round_double (244185171796028306675 / 9007199254740992) = 27110"
    by (simp add: round_double_cert [where e = 14 and n = 7451940057251840])
  have h6: "round_double (320053666014729701195902349 / 4722366482869645213696) = 4657393816374383 / 68719476736"
    by (simp add: round_double_cert [where e = 16 and n = 4657393816374383])
  have h7: "round_double (320058388381212570841116045 / 4722366482869645213696) = 4657462535851119 / 68719476736"
    by (simp add: round_double_cert [where e = 16 and n = 4657462535851119])
  have h8: "round_double (63331869759897603515625 / 8796093022208) = 7200000000"
    by (simp add: round_double_cert [where e = 32 and n = 7549747200000000])
  have h9: "round_double (85002596691653618568894482869645 / 4722366482869645213696) = 18000000000"
    by (simp add: round_double_cert [where e = 34 and n = 4718592000000000])
  show ?thesis
    by (simp add: health_factor_proxy_double_def total_borrowed_double_def
        fadd_def fmul_def fdiv_def h0 h1 h2 h3 h4 h5 h6 h7 h8 h9)
qed

end
